theory Spec2Isabelle
  imports Main "HOL-Library.Word" "HOL-Library.Signed_Division"
begin

section \<open>The value model (runtime.cpp)\<close>

text \<open>
  Every runtime object lives in a store, a list of objects indexed by address. An
  \<open>ObjectHolder\<close> is the shared pointer of the source: empty, or the address of an
  object. \<open>ObjectHolder::Own\<close> allocates at the end of the store,
  \<open>ObjectHolder::Share\<close> is the address of an object that exists already. Copying a
  holder copies the address, so all copies see one object. The store keeps every object:
  it does not count the holders of an object or destroy it with the last of them, so the
  model follows the source as long as the source uses no object after its last owning
  holder is gone.
\<close>

type_synonym addr = nat

datatype ObjectHolder = Empty | Ref addr

type_synonym Closure = "string \<rightharpoonup> ObjectHolder"

text \<open>
  Modelled from the spec: the comparator of a \<open>Comparison\<close> node, a callback whose type
  statement.h declares. The spec has the six operators \<open>==\<close>, \<open>!=\<close>, \<open><\<close>, \<open><=\<close>,
  \<open>>\<close>, \<open>>=\<close>, which dispatch to the six comparison functions of runtime.cpp.
\<close>

datatype Comparator =
  cmp_Equal | cmp_Less | cmp_NotEqual | cmp_Greater | cmp_LessOrEqual | cmp_GreaterOrEqual

text \<open>
  The nodes of statement.cpp. A \<open>VariableValue\<close> has both of its fields, \<open>var_name_\<close>
  and \<open>dotted_ids_\<close>; a \<open>FieldAssignment\<close> holds its receiver as the two fields of a
  \<open>VariableValue\<close> member. A method is its name, its formal parameters and its body; a
  class is its name, its methods and its parent.
\<close>

datatype Statement =
    Assignment string Statement
  | VariableValue string "string list"
  | FieldAssignment string "string list" string Statement
  | Print "Statement list"
  | MethodCall Statement string "Statement list"
  | Stringify Statement
  | Add Statement Statement
  | Sub Statement Statement
  | Mult Statement Statement
  | Div Statement Statement
  | Compound "Statement list"
  | Return Statement
  | ClassDefinition ObjectHolder
  | IfElse Statement Statement "Statement option"
  | Or Statement Statement
  | And Statement Statement
  | Not_stmt Statement
  | Comparison Comparator Statement Statement
  | NewInstance Class "Statement list"
  | MethodBody Statement
and Method = Method (method_name: string) (formal_params: "string list") (body: Statement)
and Class = Class (name: string) (methods: "Method list") (parent: "Class option")

text \<open>
  Modelled from the spec: the value classes, which runtime.h declares. A \<open>Number\<close> holds
  an \<open>int\<close>, the machine-width signed integer of the spec, here of 32 bits; a \<open>String\<close>
  holds its bytes, a \<open>Bool\<close> a truth value. A \<open>ClassInstance\<close> has the two members
  \<open>cls_\<close> and \<open>closure_\<close> that runtime.cpp uses.
\<close>

datatype Object =
    Number "32 word"
  | String string
  | Bool bool
  | ClassObject Class
  | ClassInstance Class Closure

text \<open>
  The machine state a node runs in: the store, and the text written so far to the output
  stream of the \<open>Context\<close>.
\<close>

record State =
  heap :: "Object list"
  out :: string

text \<open>
  What leaves a call other than a value: a \<open>std::runtime_error\<close> with its message (the
  only exception type statement.cpp and runtime.cpp throw), or one of two behaviours that
  C++ leaves undefined, which are no exceptions and which no handler catches: the
  dereference of a null pointer, and the overflow of a signed division (the quotient of
  \<open>INT_MIN\<close> by \<open>-1\<close>, at which the division instruction of x86 traps).
\<close>

datatype error = runtime_error string | null_dereference | integer_overflow

type_synonym exec_result = "((error + ObjectHolder) \<times> Closure \<times> State) option"

type_synonym executor = "Statement \<Rightarrow> Closure \<Rightarrow> State \<Rightarrow> exec_result"

type_synonym printer = "ObjectHolder \<Rightarrow> State \<Rightarrow> ((error + string) \<times> State) option"

definition Get :: "State \<Rightarrow> ObjectHolder \<Rightarrow> Object option" where
  "Get st h =
     (case h of
        Empty \<Rightarrow> None
      | Ref a \<Rightarrow> (if a < length (heap st) then Some (heap st ! a) else None))"

definition Own :: "Object \<Rightarrow> State \<Rightarrow> ObjectHolder \<times> State" where
  "Own obj st = (Ref (length (heap st)), st\<lparr>heap := heap st @ [obj]\<rparr>)"

definition TryAs_Number :: "State \<Rightarrow> ObjectHolder \<Rightarrow> 32 word option" where
  "TryAs_Number st h = (case Get st h of Some (Number v) \<Rightarrow> Some v | _ \<Rightarrow> None)"

definition TryAs_String :: "State \<Rightarrow> ObjectHolder \<Rightarrow> string option" where
  "TryAs_String st h = (case Get st h of Some (String v) \<Rightarrow> Some v | _ \<Rightarrow> None)"

definition TryAs_Bool :: "State \<Rightarrow> ObjectHolder \<Rightarrow> bool option" where
  "TryAs_Bool st h = (case Get st h of Some (Bool v) \<Rightarrow> Some v | _ \<Rightarrow> None)"

definition TryAs_Class :: "State \<Rightarrow> ObjectHolder \<Rightarrow> Class option" where
  "TryAs_Class st h = (case Get st h of Some (ClassObject c) \<Rightarrow> Some c | _ \<Rightarrow> None)"

text \<open>A pointer to a \<open>ClassInstance\<close> is its address; its two members are read through it.\<close>

definition TryAs_ClassInstance :: "State \<Rightarrow> ObjectHolder \<Rightarrow> addr option" where
  "TryAs_ClassInstance st h =
     (case h of
        Empty \<Rightarrow> None
      | Ref a \<Rightarrow> (case Get st h of Some (ClassInstance c f) \<Rightarrow> Some a | _ \<Rightarrow> None))"

definition instance_class :: "State \<Rightarrow> addr \<Rightarrow> Class" where
  "instance_class st a = (case heap st ! a of ClassInstance c f \<Rightarrow> c | _ \<Rightarrow> Class [] [] None)"

definition Fields :: "State \<Rightarrow> addr \<Rightarrow> Closure" where
  "Fields st a = (case heap st ! a of ClassInstance c f \<Rightarrow> f | _ \<Rightarrow> Map.empty)"

definition set_Fields :: "addr \<Rightarrow> Closure \<Rightarrow> State \<Rightarrow> State" where
  "set_Fields a f st = st\<lparr>heap := (heap st)[a := ClassInstance (instance_class st a) f]\<rparr>"

definition IsTrue :: "State \<Rightarrow> ObjectHolder \<Rightarrow> bool" where
  "IsTrue st object =
     (case TryAs_Bool st object of
        Some v \<Rightarrow> v
      | None \<Rightarrow>
          (case TryAs_Number st object of
             Some v \<Rightarrow> v \<noteq> 0
           | None \<Rightarrow>
               (case TryAs_String st object of
                  Some v \<Rightarrow> v \<noteq> []
                | None \<Rightarrow> False)))"

fun GetMethod :: "Class \<Rightarrow> string \<Rightarrow> Method option" where
  "GetMethod (Class nm ms par) n =
     (case find (\<lambda>m. n = method_name m) ms of
        Some m \<Rightarrow> Some m
      | None \<Rightarrow> (case par of Some p \<Rightarrow> GetMethod p n | None \<Rightarrow> None))"

definition HasMethod :: "Class \<Rightarrow> string \<Rightarrow> nat \<Rightarrow> bool" where
  "HasMethod c method argument_count =
     (case GetMethod c method of
        Some m \<Rightarrow> length (formal_params m) = argument_count
      | None \<Rightarrow> False)"

definition GetName :: "Class \<Rightarrow> string" where
  "GetName c = name c"

text \<open>\<open>std::unordered_map::insert\<close> keeps the entry of a key that is present already.\<close>

definition closure_insert :: "Closure \<Rightarrow> string \<Rightarrow> ObjectHolder \<Rightarrow> Closure" where
  "closure_insert c k v = (case c k of None \<Rightarrow> c(k \<mapsto> v) | Some old \<Rightarrow> c)"

text \<open>
  \<open>ClassInstance::Call\<close>: a fresh closure holding \<open>self\<close> and the parameters; the body
  runs in it and the closure is dropped afterwards.
\<close>

definition Call ::
  "executor \<Rightarrow> addr \<Rightarrow> string \<Rightarrow> ObjectHolder list \<Rightarrow> State \<Rightarrow> ((error + ObjectHolder) \<times> State) option" where
  "Call exec this method actual_args st =
     (if \<not> HasMethod (instance_class st this) method (length actual_args)
      then Some (Inl (runtime_error ''Not implemented''), st)
      else
        (case GetMethod (instance_class st this) method of
           None \<Rightarrow> Some (Inl null_dereference, st)
         | Some m \<Rightarrow>
             (case exec (body m)
                     (fold (\<lambda>(p, a) c. closure_insert c p a) (zip (formal_params m) actual_args)
                        [''self'' \<mapsto> Ref this])
                     st of
                None \<Rightarrow> None
              | Some (r, c', st') \<Rightarrow> Some (r, st'))))"

subsection \<open>Printing\<close>

definition digit_char :: "nat \<Rightarrow> char" where
  "digit_char d = char_of (of_char (CHR ''0'') + d)"

fun show_nat :: "nat \<Rightarrow> string" where
  "show_nat n = (if n < 10 then [digit_char n] else show_nat (n div 10) @ [digit_char (n mod 10)])"

definition show_int :: "int \<Rightarrow> string" where
  "show_int i = (if i < 0 then CHR ''-'' # show_nat (nat (- i)) else show_nat (nat i))"

text \<open>
  \<open>Print\<close> of one object, returning the text it writes to its stream. \<open>Bool\<close>, \<open>Class\<close>
  and \<open>ClassInstance\<close> print as in runtime.cpp; an instance prints what its \<open>__str__\<close>
  returns, or its address when it has none (taken here as the decimal store address).
  Modelled from the spec: the \<open>Print\<close> of \<open>Number\<close> and \<open>String\<close>, which is in
  runtime.h: a number prints in decimal, with \<open>-\<close> when negative, and a string prints its
  bytes.
\<close>

definition Object_Print :: "executor \<Rightarrow> printer \<Rightarrow> addr \<Rightarrow> State \<Rightarrow> ((error + string) \<times> State) option" where
  "Object_Print exec pr this st =
     (case heap st ! this of
        Number v \<Rightarrow> Some (Inr (show_int (sint v)), st)
      | String s \<Rightarrow> Some (Inr s, st)
      | Bool b \<Rightarrow> Some (Inr (if b then ''True'' else ''False''), st)
      | ClassObject c \<Rightarrow> Some (Inr (''Class '' @ name c), st)
      | ClassInstance c f \<Rightarrow>
          (if HasMethod c ''__str__'' 0
           then
             (case Call exec this ''__str__'' [] st of
                None \<Rightarrow> None
              | Some (Inl e, st') \<Rightarrow> Some (Inl e, st')
              | Some (Inr result, st') \<Rightarrow>
                  (case Get st' result of
                     Some obj \<Rightarrow> pr result st'
                   | None \<Rightarrow> Some (Inr ''None'', st')))
           else Some (Inr (show_nat this), st)))"

definition stream_write :: "string \<Rightarrow> State \<Rightarrow> State" where
  "stream_write txt st = st\<lparr>out := out st @ txt\<rparr>"

subsection \<open>Comparison\<close>

type_synonym cmp_result = "((error + bool) \<times> State) option"

definition Equal :: "executor \<Rightarrow> ObjectHolder \<Rightarrow> ObjectHolder \<Rightarrow> State \<Rightarrow> cmp_result" where
  "Equal exec lhs rhs st =
     (case Get st lhs of
        None \<Rightarrow>
          (case Get st rhs of
             None \<Rightarrow> Some (Inr True, st)
           | Some r \<Rightarrow> Some (Inl (runtime_error ''Cannot compare objects for equality''), st))
      | Some l \<Rightarrow>
          (case TryAs_Bool st lhs of
             Some lhs_v \<Rightarrow>
               (case TryAs_Bool st rhs of
                  Some rhs_v \<Rightarrow> Some (Inr (lhs_v = rhs_v), st)
                | None \<Rightarrow> Some (Inl (runtime_error ''Cannot compare objects for equality''), st))
           | None \<Rightarrow>
               (case TryAs_Number st lhs of
                  Some lhs_v \<Rightarrow>
                    (case TryAs_Number st rhs of
                       Some rhs_v \<Rightarrow> Some (Inr (lhs_v = rhs_v), st)
                     | None \<Rightarrow> Some (Inl (runtime_error ''Cannot compare objects for equality''), st))
                | None \<Rightarrow>
                    (case TryAs_String st lhs of
                       Some lhs_v \<Rightarrow>
                         (case TryAs_String st rhs of
                            Some rhs_v \<Rightarrow> Some (Inr (lhs_v = rhs_v), st)
                          | None \<Rightarrow>
                              Some (Inl (runtime_error ''Cannot compare objects for equality''), st))
                     | None \<Rightarrow>
                         (case TryAs_ClassInstance st lhs of
                            Some lhs_obj \<Rightarrow>
                              (if HasMethod (instance_class st lhs_obj) ''__eq__'' 1
                               then
                                 (case Call exec lhs_obj ''__eq__'' [rhs] st of
                                    None \<Rightarrow> None
                                  | Some (Inl e, st') \<Rightarrow> Some (Inl e, st')
                                  | Some (Inr result, st') \<Rightarrow>
                                      (case TryAs_Bool st' result of
                                         Some b \<Rightarrow> Some (Inr b, st')
                                       | None \<Rightarrow> Some (Inl null_dereference, st')))
                               else Some (Inl (runtime_error ''Cannot compare objects for equality''), st))
                          | None \<Rightarrow>
                              Some (Inl (runtime_error ''Cannot compare objects for equality''), st))))))"

text \<open>
  \<open>Less\<close> on strings is \<open>std::string\<close>'s \<open>operator<\<close>, the lexicographic order of the
  bytes; on numbers it is the signed order.
\<close>

fun string_less :: "string \<Rightarrow> string \<Rightarrow> bool" where
  "string_less [] [] = False"
| "string_less [] (y # ys) = True"
| "string_less (x # xs) [] = False"
| "string_less (x # xs) (y # ys) =
     (if (of_char x :: nat) < of_char y then True
      else if (of_char y :: nat) < of_char x then False
      else string_less xs ys)"

definition Less :: "executor \<Rightarrow> ObjectHolder \<Rightarrow> ObjectHolder \<Rightarrow> State \<Rightarrow> cmp_result" where
  "Less exec lhs rhs st =
     (case Get st lhs of
        None \<Rightarrow> Some (Inl (runtime_error ''Cannot compare objects for less''), st)
      | Some l \<Rightarrow>
          (case TryAs_Bool st lhs of
             Some lhs_v \<Rightarrow>
               (case TryAs_Bool st rhs of
                  Some rhs_v \<Rightarrow> Some (Inr (\<not> lhs_v \<and> rhs_v), st)
                | None \<Rightarrow> Some (Inl (runtime_error ''Cannot compare objects for less''), st))
           | None \<Rightarrow>
               (case TryAs_Number st lhs of
                  Some lhs_v \<Rightarrow>
                    (case TryAs_Number st rhs of
                       Some rhs_v \<Rightarrow> Some (Inr (sint lhs_v < sint rhs_v), st)
                     | None \<Rightarrow> Some (Inl (runtime_error ''Cannot compare objects for less''), st))
                | None \<Rightarrow>
                    (case TryAs_String st lhs of
                       Some lhs_v \<Rightarrow>
                         (case TryAs_String st rhs of
                            Some rhs_v \<Rightarrow> Some (Inr (string_less lhs_v rhs_v), st)
                          | None \<Rightarrow> Some (Inl (runtime_error ''Cannot compare objects for less''), st))
                     | None \<Rightarrow>
                         (case TryAs_ClassInstance st lhs of
                            Some lhs_obj \<Rightarrow>
                              (if HasMethod (instance_class st lhs_obj) ''__lt__'' 1
                               then
                                 (case Call exec lhs_obj ''__lt__'' [rhs] st of
                                    None \<Rightarrow> None
                                  | Some (Inl e, st') \<Rightarrow> Some (Inl e, st')
                                  | Some (Inr result, st') \<Rightarrow>
                                      (case TryAs_Bool st' result of
                                         Some b \<Rightarrow> Some (Inr b, st')
                                       | None \<Rightarrow> Some (Inl null_dereference, st')))
                               else Some (Inl (runtime_error ''Cannot compare objects for equality''), st))
                          | None \<Rightarrow> Some (Inl (runtime_error ''Cannot compare objects for less''), st))))))"

definition NotEqual :: "executor \<Rightarrow> ObjectHolder \<Rightarrow> ObjectHolder \<Rightarrow> State \<Rightarrow> cmp_result" where
  "NotEqual exec lhs rhs st =
     (case Equal exec lhs rhs st of
        None \<Rightarrow> None
      | Some (Inl e, st') \<Rightarrow> Some (Inl e, st')
      | Some (Inr b, st') \<Rightarrow> Some (Inr (\<not> b), st'))"

text \<open>\<open>!Less(lhs, rhs, context) && !Equal(lhs, rhs, context)\<close>: \<open>Equal\<close> runs only after a false \<open>Less\<close>.\<close>

definition Greater :: "executor \<Rightarrow> ObjectHolder \<Rightarrow> ObjectHolder \<Rightarrow> State \<Rightarrow> cmp_result" where
  "Greater exec lhs rhs st =
     (case Less exec lhs rhs st of
        None \<Rightarrow> None
      | Some (Inl e, st') \<Rightarrow> Some (Inl e, st')
      | Some (Inr l, st') \<Rightarrow>
          (if l then Some (Inr False, st')
           else
             (case Equal exec lhs rhs st' of
                None \<Rightarrow> None
              | Some (Inl e, st'') \<Rightarrow> Some (Inl e, st'')
              | Some (Inr e, st'') \<Rightarrow> Some (Inr (\<not> e), st''))))"

definition LessOrEqual :: "executor \<Rightarrow> ObjectHolder \<Rightarrow> ObjectHolder \<Rightarrow> State \<Rightarrow> cmp_result" where
  "LessOrEqual exec lhs rhs st =
     (case Greater exec lhs rhs st of
        None \<Rightarrow> None
      | Some (Inl e, st') \<Rightarrow> Some (Inl e, st')
      | Some (Inr b, st') \<Rightarrow> Some (Inr (\<not> b), st'))"

definition GreaterOrEqual :: "executor \<Rightarrow> ObjectHolder \<Rightarrow> ObjectHolder \<Rightarrow> State \<Rightarrow> cmp_result" where
  "GreaterOrEqual exec lhs rhs st =
     (case Less exec lhs rhs st of
        None \<Rightarrow> None
      | Some (Inl e, st') \<Rightarrow> Some (Inl e, st')
      | Some (Inr b, st') \<Rightarrow> Some (Inr (\<not> b), st'))"

text \<open>
  The connectives of the spec's formulas for the derived comparisons (\<open>!=\<close> is not
  \<open>==\<close>, \<open>>\<close> is not \<open><\<close> and not \<open>==\<close>, \<open><=\<close> is not \<open>>\<close>, \<open>>=\<close> is not
  \<open><\<close>), on the outcome of a comparison: \<open>spec_not\<close> negates the truth value and
  keeps an exception and the state as they are; \<open>spec_and\<close> is the conjunction read from
  left to right, whose right side runs, in the state the left side leaves, only when the left
  side is true.
\<close>

definition spec_not :: "cmp_result \<Rightarrow> cmp_result" where
  "spec_not r =
     (case r of
        None \<Rightarrow> None
      | Some (Inl e, s) \<Rightarrow> Some (Inl e, s)
      | Some (Inr b, s) \<Rightarrow> Some (Inr (\<not> b), s))"

definition spec_and :: "cmp_result \<Rightarrow> (State \<Rightarrow> cmp_result) \<Rightarrow> cmp_result" where
  "spec_and r k =
     (case r of
        None \<Rightarrow> None
      | Some (Inl e, s) \<Rightarrow> Some (Inl e, s)
      | Some (Inr b, s) \<Rightarrow> (if b then k s else Some (Inr False, s)))"

section \<open>The nodes (statement.cpp)\<close>

text \<open>
  \<open>Execute\<close> takes the closure and the context by reference, so a call returns the
  closure and the state it leaves behind together with its value or the exception it
  throws. A node runs its children through \<open>exec\<close>; the result \<open>None\<close> stands for a
  call that has not returned.
\<close>

text \<open>An exception thrown by a callee leaves the caller at once, with the effects so far.\<close>

definition on_value ::
  "exec_result \<Rightarrow> (ObjectHolder \<Rightarrow> Closure \<Rightarrow> State \<Rightarrow> exec_result) \<Rightarrow> exec_result" where
  "on_value r k =
     (case r of
        None \<Rightarrow> None
      | Some (Inl e, c, s) \<Rightarrow> Some (Inl e, c, s)
      | Some (Inr h, c, s) \<Rightarrow> k h c s)"

definition with_closure :: "Closure \<Rightarrow> ((error + ObjectHolder) \<times> State) option \<Rightarrow> exec_result" where
  "with_closure c r = (case r of None \<Rightarrow> None | Some (v, s) \<Rightarrow> Some (v, c, s))"

definition Assignment_Execute :: "executor \<Rightarrow> string \<Rightarrow> Statement \<Rightarrow> Closure \<Rightarrow> State \<Rightarrow> exec_result" where
  "Assignment_Execute exec var rv closure st =
     on_value (exec rv closure st) (\<lambda>h c s. Some (Inr h, c(var \<mapsto> h), s))"

text \<open>
  The loop over \<open>dotted_ids_\<close>: \<open>cl\<close> is the closure the pointer \<open>closure_\<close> points
  to, which moves to the fields of the value found only when that value is an instance.
\<close>

fun dotted_loop :: "State \<Rightarrow> string list \<Rightarrow> Closure \<Rightarrow> ObjectHolder \<Rightarrow> error + ObjectHolder" where
  "dotted_loop st [] cl result = Inr result"
| "dotted_loop st (i # ids) cl result =
     (case cl i of
        Some h \<Rightarrow>
          (case TryAs_ClassInstance st h of
             Some obj \<Rightarrow> dotted_loop st ids (Fields st obj) h
           | None \<Rightarrow> dotted_loop st ids cl h)
      | None \<Rightarrow> Inl (runtime_error ''VariableValue(dotted.?)''))"

definition VariableValue_Execute :: "string \<Rightarrow> string list \<Rightarrow> Closure \<Rightarrow> State \<Rightarrow> error + ObjectHolder" where
  "VariableValue_Execute var_name dotted_ids closure st =
     (if var_name \<noteq> []
      then (case closure var_name of
              Some h \<Rightarrow> Inr h
            | None \<Rightarrow> Inl (runtime_error ''VariableValue(?)''))
      else if 0 < length dotted_ids
      then dotted_loop st dotted_ids closure Empty
      else Inl (runtime_error ''VariableValue(?)''))"

fun Execute_args ::
  "executor \<Rightarrow> Statement list \<Rightarrow> Closure \<Rightarrow> State \<Rightarrow> ((error + ObjectHolder list) \<times> Closure \<times> State) option" where
  "Execute_args exec [] c s = Some (Inr [], c, s)"
| "Execute_args exec (arg # args) c s =
     (case exec arg c s of
        None \<Rightarrow> None
      | Some (Inl e, c1, s1) \<Rightarrow> Some (Inl e, c1, s1)
      | Some (Inr h, c1, s1) \<Rightarrow>
          (case Execute_args exec args c1 s1 of
             None \<Rightarrow> None
           | Some (Inl e, c2, s2) \<Rightarrow> Some (Inl e, c2, s2)
           | Some (Inr hs, c2, s2) \<Rightarrow> Some (Inr (h # hs), c2, s2)))"

fun Print_loop :: "executor \<Rightarrow> printer \<Rightarrow> bool \<Rightarrow> Statement list \<Rightarrow> Closure \<Rightarrow> State \<Rightarrow> exec_result" where
  "Print_loop exec pr first [] c s = Some (Inr Empty, c, stream_write [CHR 0x0A] s)"
| "Print_loop exec pr first (arg # args) c s =
     on_value (exec arg c (if first then s else stream_write '' '' s)) (\<lambda>obj_hold c1 s1.
       (case Get s1 obj_hold of
          None \<Rightarrow> Print_loop exec pr False args c1 (stream_write ''None'' s1)
        | Some obj \<Rightarrow>
            (case pr obj_hold s1 of
               None \<Rightarrow> None
             | Some (Inl e, s2) \<Rightarrow> Some (Inl e, c1, s2)
             | Some (Inr txt, s2) \<Rightarrow> Print_loop exec pr False args c1 (stream_write txt s2))))"

definition Print_Execute :: "executor \<Rightarrow> printer \<Rightarrow> Statement list \<Rightarrow> Closure \<Rightarrow> State \<Rightarrow> exec_result" where
  "Print_Execute exec pr args closure st = Print_loop exec pr True args closure st"

definition MethodCall_Execute ::
  "executor \<Rightarrow> Statement \<Rightarrow> string \<Rightarrow> Statement list \<Rightarrow> Closure \<Rightarrow> State \<Rightarrow> exec_result" where
  "MethodCall_Execute exec object method args closure st =
     on_value (exec object closure st) (\<lambda>h c1 s1.
       (case TryAs_ClassInstance s1 h of
          None \<Rightarrow> Some (Inl (runtime_error ''MethodCall(? object,,)''), c1, s1)
        | Some obj \<Rightarrow>
            (if \<not> HasMethod (instance_class s1 obj) method (length args)
             then Some (Inl (runtime_error ''MethodCall(,? method,)''), c1, s1)
             else
               (case Execute_args exec args c1 s1 of
                  None \<Rightarrow> None
                | Some (Inl e, c2, s2) \<Rightarrow> Some (Inl e, c2, s2)
                | Some (Inr actual, c2, s2) \<Rightarrow> with_closure c2 (Call exec obj method actual s2)))))"

definition Stringify_Execute :: "executor \<Rightarrow> printer \<Rightarrow> Statement \<Rightarrow> Closure \<Rightarrow> State \<Rightarrow> exec_result" where
  "Stringify_Execute exec pr argument closure st =
     on_value (exec argument closure st) (\<lambda>obj_hold c1 s1.
       (case Get s1 obj_hold of
          Some obj \<Rightarrow>
            (case pr obj_hold s1 of
               None \<Rightarrow> None
             | Some (Inl e, s2) \<Rightarrow> Some (Inl e, c1, s2)
             | Some (Inr txt, s2) \<Rightarrow> (case Own (String txt) s2 of (h, s3) \<Rightarrow> Some (Inr h, c1, s3)))
        | None \<Rightarrow> (case Own (String ''None'') s1 of (h, s2) \<Rightarrow> Some (Inr h, c1, s2))))"

text \<open>
  Arithmetic on \<open>int\<close>: sums, differences and products are taken modulo \<open>2 ^ 32\<close>;
  the quotient is the one of the signed values, rounded towards zero (\<open>sdiv\<close>).
  \<open>Div::Execute\<close> tests the divisor for zero and nothing else: \<open>lhs / rhs\<close> with
  \<open>INT_MIN\<close> and \<open>-1\<close> is the one quotient that no \<open>int\<close> holds, and the division
  overflows.
\<close>

definition Add_Execute :: "executor \<Rightarrow> Statement \<Rightarrow> Statement \<Rightarrow> Closure \<Rightarrow> State \<Rightarrow> exec_result" where
  "Add_Execute exec lhs rhs closure st =
     on_value (exec lhs closure st) (\<lambda>lhs_obj_hold c1 s1.
     on_value (exec rhs c1 s1) (\<lambda>rhs_obj_hold c2 s2.
       (case TryAs_Number s2 lhs_obj_hold of
          Some l \<Rightarrow>
            (case TryAs_Number s2 rhs_obj_hold of
               Some r \<Rightarrow> (case Own (Number (l + r)) s2 of (h, s3) \<Rightarrow> Some (Inr h, c2, s3))
             | None \<Rightarrow> Some (Inl (runtime_error ''Add(Number, ?)''), c2, s2))
        | None \<Rightarrow>
            (case TryAs_String s2 lhs_obj_hold of
               Some l \<Rightarrow>
                 (case TryAs_String s2 rhs_obj_hold of
                    Some r \<Rightarrow> (case Own (String (l @ r)) s2 of (h, s3) \<Rightarrow> Some (Inr h, c2, s3))
                  | None \<Rightarrow> Some (Inl (runtime_error ''Add(String, ?)''), c2, s2))
             | None \<Rightarrow>
                 (case TryAs_ClassInstance s2 lhs_obj_hold of
                    Some lhs_obj \<Rightarrow>
                      (if HasMethod (instance_class s2 lhs_obj) ''__add__'' 1
                       then with_closure c2 (Call exec lhs_obj ''__add__'' [rhs_obj_hold] s2)
                       else Some (Inl (runtime_error ''Add(?, ?)''), c2, s2))
                  | None \<Rightarrow> Some (Inl (runtime_error ''Add(?, ?)''), c2, s2))))))"

definition Sub_Execute :: "executor \<Rightarrow> Statement \<Rightarrow> Statement \<Rightarrow> Closure \<Rightarrow> State \<Rightarrow> exec_result" where
  "Sub_Execute exec lhs rhs closure st =
     on_value (exec lhs closure st) (\<lambda>lhs_obj_hold c1 s1.
     on_value (exec rhs c1 s1) (\<lambda>rhs_obj_hold c2 s2.
       (case TryAs_Number s2 lhs_obj_hold of
          Some l \<Rightarrow>
            (case TryAs_Number s2 rhs_obj_hold of
               Some r \<Rightarrow> (case Own (Number (l - r)) s2 of (h, s3) \<Rightarrow> Some (Inr h, c2, s3))
             | None \<Rightarrow> Some (Inl (runtime_error ''Sub(Number, ?)''), c2, s2))
        | None \<Rightarrow> Some (Inl (runtime_error ''Sub(?, ?)''), c2, s2))))"

definition Mult_Execute :: "executor \<Rightarrow> Statement \<Rightarrow> Statement \<Rightarrow> Closure \<Rightarrow> State \<Rightarrow> exec_result" where
  "Mult_Execute exec lhs rhs closure st =
     on_value (exec lhs closure st) (\<lambda>lhs_obj_hold c1 s1.
     on_value (exec rhs c1 s1) (\<lambda>rhs_obj_hold c2 s2.
       (case TryAs_Number s2 lhs_obj_hold of
          Some l \<Rightarrow>
            (case TryAs_Number s2 rhs_obj_hold of
               Some r \<Rightarrow> (case Own (Number (l * r)) s2 of (h, s3) \<Rightarrow> Some (Inr h, c2, s3))
             | None \<Rightarrow> Some (Inl (runtime_error ''Mult(Number, ?)''), c2, s2))
        | None \<Rightarrow> Some (Inl (runtime_error ''Mult(?, ?)''), c2, s2))))"

definition Div_Execute :: "executor \<Rightarrow> Statement \<Rightarrow> Statement \<Rightarrow> Closure \<Rightarrow> State \<Rightarrow> exec_result" where
  "Div_Execute exec lhs rhs closure st =
     on_value (exec lhs closure st) (\<lambda>lhs_obj_hold c1 s1.
     on_value (exec rhs c1 s1) (\<lambda>rhs_obj_hold c2 s2.
       (case TryAs_Number s2 lhs_obj_hold of
          Some l \<Rightarrow>
            (case TryAs_Number s2 rhs_obj_hold of
               Some r \<Rightarrow>
                 (if r = 0
                  then Some (Inl (runtime_error ''Div(Number, 0): divide by zero''), c2, s2)
                  else if sint l = - (2 ^ 31) \<and> sint r = - 1
                  then Some (Inl integer_overflow, c2, s2)
                  else (case Own (Number (word_of_int (sint l sdiv sint r))) s2 of
                          (h, s3) \<Rightarrow> Some (Inr h, c2, s3)))
             | None \<Rightarrow> Some (Inl (runtime_error ''Div(Number, ?)''), c2, s2))
        | None \<Rightarrow> Some (Inl (runtime_error ''Div(?, ?)''), c2, s2))))"

fun Compound_Execute :: "executor \<Rightarrow> Statement list \<Rightarrow> Closure \<Rightarrow> State \<Rightarrow> exec_result" where
  "Compound_Execute exec [] c s = Some (Inr Empty, c, s)"
| "Compound_Execute exec (stmt # stmts) c s =
     on_value (exec stmt c s) (\<lambda>h c1 s1. Compound_Execute exec stmts c1 s1)"

definition Return_Execute :: "executor \<Rightarrow> Statement \<Rightarrow> Closure \<Rightarrow> State \<Rightarrow> exec_result" where
  "Return_Execute exec statement closure st =
     on_value (exec statement closure st) (\<lambda>h c s.
       Some (Inl (runtime_error ''return''), c(''return'' \<mapsto> h), s))"

definition NewInstance_Execute :: "executor \<Rightarrow> Class \<Rightarrow> Statement list \<Rightarrow> Closure \<Rightarrow> State \<Rightarrow> exec_result" where
  "NewInstance_Execute exec class args closure st =
     (case Own (ClassInstance class Map.empty) st of
        (result, s1) \<Rightarrow>
          (case TryAs_ClassInstance s1 result of
             None \<Rightarrow> Some (Inr result, closure, s1)
           | Some new_obj \<Rightarrow>
               (if HasMethod (instance_class s1 new_obj) ''__init__'' (length args)
                then
                  (case Execute_args exec args closure s1 of
                     None \<Rightarrow> None
                   | Some (Inl e, c2, s2) \<Rightarrow> Some (Inl e, c2, s2)
                   | Some (Inr actual, c2, s2) \<Rightarrow>
                       (case Call exec new_obj ''__init__'' actual s2 of
                          None \<Rightarrow> None
                        | Some (Inl e, s3) \<Rightarrow> Some (Inl e, c2, s3)
                        | Some (Inr r, s3) \<Rightarrow> Some (Inr result, c2, s3)))
                else Some (Inr result, closure, s1))))"

definition ClassDefinition_Execute :: "executor \<Rightarrow> ObjectHolder \<Rightarrow> Closure \<Rightarrow> State \<Rightarrow> exec_result" where
  "ClassDefinition_Execute exec cls closure st =
     (case TryAs_Class st cls of
        None \<Rightarrow> Some (Inl null_dereference, closure, st)
      | Some obj \<Rightarrow>
          on_value (NewInstance_Execute exec obj [] closure st) (\<lambda>h c s.
            Some (Inr h, c(GetName obj \<mapsto> h), s)))"

text \<open>
  \<open>FieldAssignment::Execute\<close> resolves the receiver to the plain pointer \<open>obj\<close>, drops
  the holder it came in, runs the right-hand side and writes through \<open>obj\<close>. Here
  \<open>obj\<close> is the address of the receiver and the write goes to that address: this is
  the source as long as the receiver is alive at the write. A right-hand side that
  releases the last owning holder of the receiver destroys it in the source, whose write
  then goes through a dangling pointer; the store does not show that.
\<close>

definition FieldAssignment_Execute ::
  "executor \<Rightarrow> string \<Rightarrow> string list \<Rightarrow> string \<Rightarrow> Statement \<Rightarrow> Closure \<Rightarrow> State \<Rightarrow> exec_result" where
  "FieldAssignment_Execute exec var_name dotted_ids field_name rv closure st =
     (case VariableValue_Execute var_name dotted_ids closure st of
        Inl e \<Rightarrow> Some (Inl e, closure, st)
      | Inr object \<Rightarrow>
          (case TryAs_ClassInstance st object of
             None \<Rightarrow>
               Some (Inl (runtime_error (''FieldAssignment: haven'' @ [CHR 0x27] @ ''t object'')),
                     closure, st)
           | Some obj \<Rightarrow>
               on_value (exec rv closure st) (\<lambda>h c s.
                 Some (Inr h, c, set_Fields obj ((Fields s obj)(field_name \<mapsto> h)) s))))"

definition IfElse_Execute ::
  "executor \<Rightarrow> Statement \<Rightarrow> Statement \<Rightarrow> Statement option \<Rightarrow> Closure \<Rightarrow> State \<Rightarrow> exec_result" where
  "IfElse_Execute exec condition if_body else_body closure st =
     on_value (exec condition closure st) (\<lambda>h c1 s1.
       (case TryAs_Bool s1 h of
          None \<Rightarrow> Some (Inl null_dereference, c1, s1)
        | Some cond \<Rightarrow>
            (if cond then exec if_body c1 s1
             else (case else_body of
                     Some eb \<Rightarrow> exec eb c1 s1
                   | None \<Rightarrow> Some (Inr Empty, c1, s1)))))"

definition Or_Execute :: "executor \<Rightarrow> Statement \<Rightarrow> Statement \<Rightarrow> Closure \<Rightarrow> State \<Rightarrow> exec_result" where
  "Or_Execute exec lhs rhs closure st =
     on_value (exec lhs closure st) (\<lambda>lhs_obj_hold c1 s1.
       (case TryAs_Bool s1 lhs_obj_hold of
          Some lhs_obj \<Rightarrow>
            (if lhs_obj then Some (Inr lhs_obj_hold, c1, s1)
             else
               on_value (exec rhs c1 s1) (\<lambda>rhs_obj_hold c2 s2.
                 (case TryAs_Bool s2 rhs_obj_hold of
                    Some rhs_obj \<Rightarrow> Some (Inr rhs_obj_hold, c2, s2)
                  | None \<Rightarrow> Some (Inl (runtime_error ''Or(?, ?)''), c2, s2))))
        | None \<Rightarrow> Some (Inl (runtime_error ''Or(?, ?)''), c1, s1)))"

definition And_Execute :: "executor \<Rightarrow> Statement \<Rightarrow> Statement \<Rightarrow> Closure \<Rightarrow> State \<Rightarrow> exec_result" where
  "And_Execute exec lhs rhs closure st =
     on_value (exec lhs closure st) (\<lambda>lhs_obj_hold c1 s1.
       (case TryAs_Bool s1 lhs_obj_hold of
          Some lhs_obj \<Rightarrow>
            (if \<not> lhs_obj then Some (Inr lhs_obj_hold, c1, s1)
             else
               on_value (exec rhs c1 s1) (\<lambda>rhs_obj_hold c2 s2.
                 (case TryAs_Bool s2 rhs_obj_hold of
                    Some rhs_obj \<Rightarrow> Some (Inr rhs_obj_hold, c2, s2)
                  | None \<Rightarrow> Some (Inl (runtime_error ''And(?, ?)''), c2, s2))))
        | None \<Rightarrow> Some (Inl (runtime_error ''And(?, ?)''), c1, s1)))"

definition Not_Execute :: "executor \<Rightarrow> Statement \<Rightarrow> Closure \<Rightarrow> State \<Rightarrow> exec_result" where
  "Not_Execute exec argument closure st =
     on_value (exec argument closure st) (\<lambda>h c1 s1.
       (case TryAs_Bool s1 h of
          Some arg \<Rightarrow> (case Own (Bool (if arg then False else True)) s1 of
                        (r, s2) \<Rightarrow> Some (Inr r, c1, s2))
        | None \<Rightarrow> Some (Inl (runtime_error ''Not(?)''), c1, s1)))"

definition apply_Comparator ::
  "Comparator \<Rightarrow> executor \<Rightarrow> ObjectHolder \<Rightarrow> ObjectHolder \<Rightarrow> State \<Rightarrow> cmp_result" where
  "apply_Comparator cmp =
     (case cmp of
        cmp_Equal \<Rightarrow> Equal
      | cmp_Less \<Rightarrow> Less
      | cmp_NotEqual \<Rightarrow> NotEqual
      | cmp_Greater \<Rightarrow> Greater
      | cmp_LessOrEqual \<Rightarrow> LessOrEqual
      | cmp_GreaterOrEqual \<Rightarrow> GreaterOrEqual)"

definition Comparison_Execute ::
  "executor \<Rightarrow> Comparator \<Rightarrow> Statement \<Rightarrow> Statement \<Rightarrow> Closure \<Rightarrow> State \<Rightarrow> exec_result" where
  "Comparison_Execute exec cmp lhs rhs closure st =
     on_value (exec lhs closure st) (\<lambda>l c1 s1.
     on_value (exec rhs c1 s1) (\<lambda>r c2 s2.
       (case apply_Comparator cmp exec l r s2 of
          None \<Rightarrow> None
        | Some (Inl e, s3) \<Rightarrow> Some (Inl e, c2, s3)
        | Some (Inr b, s3) \<Rightarrow> (case Own (Bool b) s3 of (h, s4) \<Rightarrow> Some (Inr h, c2, s4)))))"

text \<open>
  The handler of \<open>MethodBody::Execute\<close> catches \<open>std::runtime_error\<close>: it looks the key
  \<open>return\<close> up when the message is \<open>return\<close>, and in every other case returns the empty
  holder.
\<close>

definition MethodBody_Execute :: "executor \<Rightarrow> Statement \<Rightarrow> Closure \<Rightarrow> State \<Rightarrow> exec_result" where
  "MethodBody_Execute exec method_body closure st =
     (case exec method_body closure st of
        None \<Rightarrow> None
      | Some (Inr h, c, s) \<Rightarrow> Some (Inr Empty, c, s)
      | Some (Inl (runtime_error what), c, s) \<Rightarrow>
          (if what = ''return''
           then (case c ''return'' of
                   Some h \<Rightarrow> Some (Inr h, c, s)
                 | None \<Rightarrow> Some (Inr Empty, c, s))
           else Some (Inr Empty, c, s))
      | Some (Inl null_dereference, c, s) \<Rightarrow> Some (Inl null_dereference, c, s)
      | Some (Inl integer_overflow, c, s) \<Rightarrow> Some (Inl integer_overflow, c, s))"

text \<open>The virtual call \<open>Execute\<close>: each node runs its own function.\<close>

definition Statement_Execute :: "executor \<Rightarrow> printer \<Rightarrow> Statement \<Rightarrow> Closure \<Rightarrow> State \<Rightarrow> exec_result" where
  "Statement_Execute exec pr stmt closure st =
     (case stmt of
        Assignment var rv \<Rightarrow> Assignment_Execute exec var rv closure st
      | VariableValue var_name dotted_ids \<Rightarrow>
          Some (VariableValue_Execute var_name dotted_ids closure st, closure, st)
      | FieldAssignment var_name dotted_ids field_name rv \<Rightarrow>
          FieldAssignment_Execute exec var_name dotted_ids field_name rv closure st
      | Print args \<Rightarrow> Print_Execute exec pr args closure st
      | MethodCall object method args \<Rightarrow> MethodCall_Execute exec object method args closure st
      | Stringify argument \<Rightarrow> Stringify_Execute exec pr argument closure st
      | Add lhs rhs \<Rightarrow> Add_Execute exec lhs rhs closure st
      | Sub lhs rhs \<Rightarrow> Sub_Execute exec lhs rhs closure st
      | Mult lhs rhs \<Rightarrow> Mult_Execute exec lhs rhs closure st
      | Div lhs rhs \<Rightarrow> Div_Execute exec lhs rhs closure st
      | Compound stmts \<Rightarrow> Compound_Execute exec stmts closure st
      | Return statement \<Rightarrow> Return_Execute exec statement closure st
      | ClassDefinition cls \<Rightarrow> ClassDefinition_Execute exec cls closure st
      | IfElse condition if_body else_body \<Rightarrow>
          IfElse_Execute exec condition if_body else_body closure st
      | Or lhs rhs \<Rightarrow> Or_Execute exec lhs rhs closure st
      | And lhs rhs \<Rightarrow> And_Execute exec lhs rhs closure st
      | Not_stmt argument \<Rightarrow> Not_Execute exec argument closure st
      | Comparison cmp lhs rhs \<Rightarrow> Comparison_Execute exec cmp lhs rhs closure st
      | NewInstance class args \<Rightarrow> NewInstance_Execute exec class args closure st
      | MethodBody method_body \<Rightarrow> MethodBody_Execute exec method_body closure st)"

definition Holder_Print :: "executor \<Rightarrow> printer \<Rightarrow> ObjectHolder \<Rightarrow> State \<Rightarrow> ((error + string) \<times> State) option" where
  "Holder_Print exec pr h st =
     (case h of
        Empty \<Rightarrow> Some (Inl null_dereference, st)
      | Ref a \<Rightarrow> Object_Print exec pr a st)"

text \<open>
  The recursion of the interpreter follows the tree and the calls of methods, and a method
  may call itself for ever. \<open>Execute n\<close> runs a node whose run nests nodes and calls at
  most \<open>n\<close> deep and is \<open>None\<close> when that is not enough; \<open>Execute (Suc n)\<close> runs the
  node itself and hands \<open>Execute n\<close> to it for its children and for the bodies of the
  methods it calls.
\<close>

fun Execute :: "nat \<Rightarrow> executor" and Print_holder :: "nat \<Rightarrow> printer" where
  "Execute 0 = (\<lambda>stmt closure st. None)"
| "Execute (Suc n) = Statement_Execute (Execute n) (Print_holder n)"
| "Print_holder 0 = (\<lambda>h st. None)"
| "Print_holder (Suc n) = Holder_Print (Execute n) (Print_holder n)"

section \<open>The lexer (lexer.cpp)\<close>

text \<open>
  Modelled from the spec: the token variants, which lexer.h declares, under the names that
  lexer.cpp uses for them.
\<close>

datatype Token =
    T_Number int
  | T_Id string
  | T_String string
  | T_Char char
  | T_Class | T_Return | T_If | T_Else | T_Def
  | T_Newline
  | T_Print
  | T_Indent | T_Dedent
  | T_And | T_Or | T_Not
  | T_Eq | T_NotEq | T_LessOrEq | T_GreaterOrEq
  | T_None | T_True | T_False
  | T_Eof

text \<open>
  The members of \<open>Lexer\<close> that lexer.cpp uses: the rest of the input stream, the current
  token, the depth counter (compared with an \<open>int\<close> and decremented, so an integer
  here) and the equal-depth flag.
\<close>

record Lexer =
  input :: string
  token :: Token
  indent_count :: int
  indent_equal :: bool

text \<open>
  What leaves \<open>NextToken\<close> other than a token: a \<open>LexerError\<close> with its message, an
  exception of \<open>std::stoi\<close>, or no return at all (the loop of \<open>Helper::String\<close> on a
  literal that the input does not close).
\<close>

datatype lexer_error = LexerError string | stoi_out_of_range | stoi_invalid_argument | no_return

type_synonym lex_result = "(lexer_error + Token) \<times> Lexer"

subsection \<open>The input stream\<close>

text \<open>
  \<open>peek\<close> and \<open>get\<close> return \<open>EOF\<close>, that is \<open>-1\<close>, at the end of the stream; stored in
  a \<open>char\<close> this is the byte \<open>0xFF\<close>, and \<open>(c == -1)\<close> holds for that byte. \<open>putback\<close>
  puts a character in front of the rest; the helpers put back the character they have
  just read, but for \<open>Helper::Comment\<close>.
\<close>

definition EOF_char :: char where
  "EOF_char = CHR 0xFF"

definition peek :: "string \<Rightarrow> char" where
  "peek inp = (case inp of [] \<Rightarrow> EOF_char | c # rest \<Rightarrow> c)"

definition get :: "string \<Rightarrow> char \<times> string" where
  "get inp = (case inp of [] \<Rightarrow> (EOF_char, []) | c # rest \<Rightarrow> (c, rest))"

definition putback :: "char \<Rightarrow> string \<Rightarrow> string" where
  "putback c inp = c # inp"

definition isdigit :: "char \<Rightarrow> bool" where
  "isdigit c = (48 \<le> (of_char c :: nat) \<and> (of_char c :: nat) \<le> 57)"

definition isalpha :: "char \<Rightarrow> bool" where
  "isalpha c = ((65 \<le> (of_char c :: nat) \<and> (of_char c :: nat) \<le> 90) \<or>
                (97 \<le> (of_char c :: nat) \<and> (of_char c :: nat) \<le> 122))"

definition isalnum :: "char \<Rightarrow> bool" where
  "isalnum c = (isalpha c \<or> isdigit c)"

definition is_space :: "char \<Rightarrow> bool" where
  "is_space c = (c = CHR '' '')"

subsection \<open>The helpers\<close>

definition id_char :: "char \<Rightarrow> bool" where
  "id_char c = (c = CHR ''_'' \<or> isalnum c)"

definition keyword_or_id :: "char \<Rightarrow> string \<Rightarrow> Token" where
  "keyword_or_id c s =
     (if c = CHR ''_'' then T_Id s
      else if c = CHR ''c'' \<and> s = ''class'' then T_Class
      else if c = CHR ''r'' \<and> s = ''return'' then T_Return
      else if c = CHR ''i'' \<and> s = ''if'' then T_If
      else if c = CHR ''e'' \<and> s = ''else'' then T_Else
      else if c = CHR ''d'' \<and> s = ''def'' then T_Def
      else if c = CHR ''p'' \<and> s = ''print'' then T_Print
      else if c = CHR ''a'' \<and> s = ''and'' then T_And
      else if c = CHR ''o'' \<and> s = ''or'' then T_Or
      else if c = CHR ''n'' \<and> s = ''not'' then T_Not
      else if c = CHR ''N'' \<and> s = ''None'' then T_None
      else if c = CHR ''T'' \<and> s = ''True'' then T_True
      else if c = CHR ''F'' \<and> s = ''False'' then T_False
      else T_Id s)"

text \<open>
  \<open>Helper::Id\<close>: with the equal-depth flag set it clears the flag and scans; otherwise,
  after a \<open>Newline\<close> or a \<open>Dedent\<close> and with a depth that is not zero, it returns a
  \<open>Dedent\<close> and reads nothing.
\<close>

definition Id_scan :: "Lexer \<Rightarrow> Token \<times> Lexer" where
  "Id_scan lexer =
     (keyword_or_id (peek (input lexer)) (takeWhile id_char (input lexer)),
      lexer\<lparr>input := dropWhile id_char (input lexer)\<rparr>)"

definition Helper_Id :: "Lexer \<Rightarrow> Token \<times> Lexer" where
  "Helper_Id lexer =
     (if indent_equal lexer then Id_scan (lexer\<lparr>indent_equal := False\<rparr>)
      else if (token lexer = T_Newline \<or> token lexer = T_Dedent) \<and> indent_count lexer \<noteq> 0
      then (T_Dedent, lexer\<lparr>indent_count := indent_count lexer - 1\<rparr>)
      else Id_scan lexer)"

definition digit_value :: "char \<Rightarrow> int" where
  "digit_value c = int (of_char c) - 48"

definition decimal :: "string \<Rightarrow> int" where
  "decimal s = foldl (\<lambda>v c. 10 * v + digit_value c) 0 s"

definition Helper_Number :: "string \<Rightarrow> (lexer_error + Token) \<times> string" where
  "Helper_Number inp =
     (if takeWhile isdigit inp = [] then (Inl stoi_invalid_argument, dropWhile isdigit inp)
      else if 2147483647 < decimal (takeWhile isdigit inp)
      then (Inl stoi_out_of_range, dropWhile isdigit inp)
      else (Inr (T_Number (decimal (takeWhile isdigit inp))), dropWhile isdigit inp))"

definition escape_error :: "char \<Rightarrow> lexer_error" where
  "escape_error escaped_char = LexerError (''Unrecognized escape sequence '' @ [CHR 0x5C, escaped_char])"

fun String_loop :: "char \<Rightarrow> string \<Rightarrow> string \<Rightarrow> (lexer_error + Token) \<times> string" where
  "String_loop quot s [] = (Inl no_return, [])"
| "String_loop quot s [c] =
     (if c = quot then (Inr (T_String s), [])
      else if c = CHR 0x5C then (Inl (escape_error EOF_char), [])
      else String_loop quot (s @ [c]) [])"
| "String_loop quot s (c # escaped_char # inp) =
     (if c = quot then (Inr (T_String s), escaped_char # inp)
      else if c = CHR 0x5C
      then
        (if escaped_char = CHR ''n'' then String_loop quot (s @ [CHR 0x0A]) inp
         else if escaped_char = CHR ''t'' then String_loop quot (s @ [CHR 0x09]) inp
         else if escaped_char = CHR ''r'' then String_loop quot (s @ [CHR 0x0D]) inp
         else if escaped_char = CHR 0x22 then String_loop quot (s @ [CHR 0x22]) inp
         else if escaped_char = CHR 0x27 then String_loop quot (s @ [CHR 0x27]) inp
         else if escaped_char = CHR 0x5C then String_loop quot (s @ [CHR 0x5C]) inp
         else (Inl (escape_error escaped_char), inp))
      else String_loop quot (s @ [c]) (escaped_char # inp))"

definition Helper_String :: "string \<Rightarrow> (lexer_error + Token) \<times> string" where
  "Helper_String inp = (case get inp of (quot, rest) \<Rightarrow> String_loop quot [] rest)"

definition Helper_Operation :: "string \<Rightarrow> (lexer_error + Token) \<times> string" where
  "Helper_Operation inp =
     (case get inp of
        (c, rest) \<Rightarrow>
          (if c = CHR ''=''
           then (case get rest of
                   (c2, rest2) \<Rightarrow>
                     if c2 = CHR ''='' then (Inr T_Eq, rest2)
                     else (Inr (T_Char (CHR ''='')), putback c2 rest2))
           else if c = CHR ''!''
           then (case get rest of
                   (c2, rest2) \<Rightarrow>
                     if c2 = CHR ''='' then (Inr T_NotEq, rest2)
                     else (Inl (LexerError (''Operation(): '' @ [CHR 0x27] @ ''!?'' @ [CHR 0x27])), rest2))
           else if c = CHR ''>''
           then (case get rest of
                   (c2, rest2) \<Rightarrow>
                     if c2 = CHR ''='' then (Inr T_GreaterOrEq, rest2)
                     else (Inr (T_Char (CHR ''>'')), putback c2 rest2))
           else if c = CHR ''<''
           then (case get rest of
                   (c2, rest2) \<Rightarrow>
                     if c2 = CHR ''='' then (Inr T_LessOrEq, rest2)
                     else (Inr (T_Char (CHR ''<'')), putback c2 rest2))
           else (Inr T_Eof, rest)))"

text \<open>
  The helpers below end in \<open>return lexer.NextToken()\<close> on some of their paths; they take
  \<open>NextToken\<close> as the argument \<open>next_token\<close>.
\<close>

definition Helper_Indent :: "(Lexer \<Rightarrow> lex_result) \<Rightarrow> Lexer \<Rightarrow> lex_result" where
  "Helper_Indent next_token lexer0 =
     (let space_count = length (takeWhile is_space (input lexer0));
          lexer = lexer0\<lparr>input := dropWhile is_space (input lexer0), indent_equal := False\<rparr>
      in
        if peek (input lexer) = CHR 0x0A then next_token lexer
        else if space_count mod 2 \<noteq> 0 then (Inl (LexerError ''Indent(): odd spaces''), lexer)
        else if int (space_count div 2) = indent_count lexer
        then next_token (lexer\<lparr>indent_equal := True\<rparr>)
        else if space_count div 2 \<noteq> 0 \<and> token lexer = T_Indent
        then (Inr T_Indent,
              lexer\<lparr>input := replicate space_count (CHR '' '') @ input lexer,
                    indent_count := indent_count lexer + 1\<rparr>)
        else if space_count div 2 \<noteq> 0 \<and> token lexer = T_Dedent
        then (Inr T_Dedent,
              lexer\<lparr>input := replicate space_count (CHR '' '') @ input lexer,
                    indent_count := indent_count lexer - 1\<rparr>)
        else if indent_count lexer < int (space_count div 2)
        then (Inr T_Indent,
              lexer\<lparr>input := replicate space_count (CHR '' '') @ input lexer,
                    indent_count := indent_count lexer + 1\<rparr>)
        else (Inr T_Dedent,
              lexer\<lparr>input := replicate space_count (CHR '' '') @ input lexer,
                    indent_count := indent_count lexer - 1\<rparr>))"

definition Helper_Space :: "(Lexer \<Rightarrow> lex_result) \<Rightarrow> Lexer \<Rightarrow> lex_result" where
  "Helper_Space next_token lexer =
     (if token lexer = T_Newline \<or> token lexer = T_Indent \<or> token lexer = T_Dedent
      then Helper_Indent next_token lexer
      else next_token (lexer\<lparr>input := dropWhile is_space (input lexer)\<rparr>))"

text \<open>
  \<open>getline\<close> reads up to and including the next line feed, which \<open>putback\<close> then puts
  back. A comment that ends the input has no line feed: \<open>getline\<close> reads to the end of
  the stream, and \<open>putback\<close> fails, because \<open>getline\<close> has set \<open>failbit\<close> (it read
  nothing) or because the line feed is not the byte read last, the only byte that the
  buffer of an input string stream takes back. Nothing is put back then, and the stream is
  left in an error state, in which \<open>peek\<close> returns \<open>EOF\<close>: it is the stream at its
  end.
\<close>

definition Helper_Comment :: "(Lexer \<Rightarrow> lex_result) \<Rightarrow> Lexer \<Rightarrow> lex_result" where
  "Helper_Comment next_token lexer =
     (case dropWhile (\<lambda>c. c \<noteq> CHR 0x0A) (input lexer) of
        [] \<Rightarrow> next_token (lexer\<lparr>input := []\<rparr>)
      | c # rest \<Rightarrow> next_token (lexer\<lparr>input := putback (CHR 0x0A) rest\<rparr>))"

definition Helper_Char :: "(Lexer \<Rightarrow> lex_result) \<Rightarrow> Lexer \<Rightarrow> lex_result" where
  "Helper_Char next_token lexer0 =
     (case get (input lexer0) of
        (c, rest) \<Rightarrow>
          (let lexer = lexer0\<lparr>input := rest\<rparr> in
             if c = CHR 0x0A
             then (if token lexer = T_Eof \<or> token lexer = T_Newline then next_token lexer
                   else (Inr T_Newline, lexer))
             else if c = CHR ''+'' \<or> c = CHR ''-'' \<or> c = CHR ''*'' \<or> c = CHR ''/'' \<or> c = CHR ''.'' \<or>
                     c = CHR '','' \<or> c = CHR '':'' \<or> c = CHR ''('' \<or> c = CHR '')''
             then (Inr (T_Char c), lexer)
             else if c = CHR ''='' \<or> c = CHR ''!'' \<or> c = CHR ''>'' \<or> c = CHR ''<''
             then (case Helper_Operation (putback c rest) of
                     (r, inp) \<Rightarrow> (r, lexer\<lparr>input := inp\<rparr>))
             else if c = CHR '' ''
             then Helper_Space next_token (lexer\<lparr>input := putback c rest\<rparr>)
             else if c = CHR ''#'' then Helper_Comment next_token lexer
             else if c = CHR ''_''
             then (case Helper_Id (lexer\<lparr>input := putback c rest\<rparr>) of
                     (t, lexer') \<Rightarrow> (Inr t, lexer'))
             else (Inr T_Eof, lexer)))"

text \<open>\<open>token_ = ...\<close>: the token a helper returns becomes the current token; an exception skips the assignment.\<close>

definition assign_token :: "lex_result \<Rightarrow> lex_result" where
  "assign_token r =
     (case r of
        (Inl e, lexer) \<Rightarrow> (Inl e, lexer)
      | (Inr t, lexer) \<Rightarrow> (Inr t, lexer\<lparr>token := t\<rparr>))"

definition lexer_measure :: "Lexer \<Rightarrow> nat" where
  "lexer_measure lexer = length (input lexer)"

subsection \<open>NextToken\<close>

lemma small_input_measure:
  "length (input l) < length (input l') \<Longrightarrow> lexer_measure l < lexer_measure l'"
  by (simp add: lexer_measure_def)

lemma Helper_Indent_agree:
  assumes "\<And>l. length (input l) \<le> n \<Longrightarrow> f l = g l"
    and "length (dropWhile is_space (input lexer)) \<le> n"
  shows "Helper_Indent f lexer = Helper_Indent g lexer"
  using assms by (simp add: Helper_Indent_def Let_def)

lemma Helper_Space_agree:
  assumes "\<And>l. length (input l) \<le> n \<Longrightarrow> f l = g l"
    and "length (dropWhile is_space (input lexer)) \<le> n"
  shows "Helper_Space f lexer = Helper_Space g lexer"
  using assms Helper_Indent_agree [of n f g lexer] by (simp add: Helper_Space_def)

lemma Helper_Comment_agree:
  assumes "\<And>l. length (input l) \<le> n \<Longrightarrow> f l = g l"
    and "length (input lexer) \<le> n"
  shows "Helper_Comment f lexer = Helper_Comment g lexer"
proof (cases "dropWhile (\<lambda>c. c \<noteq> CHR 0x0A) (input lexer)")
  case Nil
  then show ?thesis
    using assms(1) [of "lexer\<lparr>input := []\<rparr>"]
    by (simp add: Helper_Comment_def del: dropWhile_eq_Nil_conv)
next
  case (Cons c rest)
  have "length (dropWhile (\<lambda>c. c \<noteq> CHR 0x0A) (input lexer)) \<le> length (input lexer)"
    by (rule length_dropWhile_le)
  with Cons assms(2) have "length (input (lexer\<lparr>input := putback (CHR 0x0A) rest\<rparr>)) \<le> n"
    by (simp add: putback_def)
  then have "f (lexer\<lparr>input := putback (CHR 0x0A) rest\<rparr>) = g (lexer\<lparr>input := putback (CHR 0x0A) rest\<rparr>)"
    by (rule assms(1))
  with Cons show ?thesis by (simp add: Helper_Comment_def)
qed

lemma Helper_Char_cong [fundef_cong]:
  assumes "lexer = lexer'"
    and agree: "\<And>l. lexer_measure l < lexer_measure lexer' \<Longrightarrow> f l = g l"
  shows "Helper_Char f lexer = Helper_Char g lexer'"
proof -
  have "Helper_Char f lexer' = Helper_Char g lexer'"
  proof (cases "input lexer'")
    case Nil
    then show ?thesis
      by (simp add: Helper_Char_def get_def EOF_char_def Let_def)
  next
    case (Cons c rest)
    have short: "f l = g l" if "length (input l) \<le> length rest" for l
      using that Cons by (intro agree small_input_measure) simp
    have nl: "f (lexer'\<lparr>input := rest\<rparr>) = g (lexer'\<lparr>input := rest\<rparr>)"
      by (rule short) simp
    have sp: "Helper_Space f (lexer'\<lparr>input := putback (CHR '' '') rest\<rparr>) =
              Helper_Space g (lexer'\<lparr>input := putback (CHR '' '') rest\<rparr>)"
    proof (rule Helper_Space_agree [where n = "length rest"])
      show "f l = g l" if "length (input l) \<le> length rest" for l
        using that by (rule short)
      show "length (dropWhile is_space (input (lexer'\<lparr>input := putback (CHR '' '') rest\<rparr>))) \<le> length rest"
        by (simp add: putback_def is_space_def length_dropWhile_le)
    qed
    have cm: "Helper_Comment f (lexer'\<lparr>input := rest\<rparr>) = Helper_Comment g (lexer'\<lparr>input := rest\<rparr>)"
    proof (rule Helper_Comment_agree [where n = "length rest"])
      show "f l = g l" if "length (input l) \<le> length rest" for l
        using that by (rule short)
      show "length (input (lexer'\<lparr>input := rest\<rparr>)) \<le> length rest"
        by simp
    qed
    show ?thesis
      using Cons nl sp cm by (simp add: Helper_Char_def get_def Let_def)
  qed
  with assms(1) show ?thesis by simp
qed

text \<open>
  \<open>NextToken\<close>. Every path of a helper that calls it again has read at least one
  character more than it has put back, so the recursion ends.
\<close>

function NextToken :: "Lexer \<Rightarrow> lex_result" where
  "NextToken lexer =
     (if peek (input lexer) = EOF_char
      then
        (if indent_count lexer \<noteq> 0
         then (Inr T_Dedent, lexer\<lparr>token := T_Dedent, indent_count := indent_count lexer - 1\<rparr>)
         else if token lexer \<noteq> T_Eof \<and> token lexer \<noteq> T_Dedent \<and> token lexer \<noteq> T_Newline
         then (Inr T_Newline, lexer\<lparr>token := T_Newline\<rparr>)
         else (Inr T_Eof, lexer\<lparr>token := T_Eof\<rparr>))
      else if isalpha (peek (input lexer))
      then assign_token (case Helper_Id lexer of (t, lexer') \<Rightarrow> (Inr t, lexer'))
      else if isdigit (peek (input lexer))
      then assign_token (case Helper_Number (input lexer) of (r, inp) \<Rightarrow> (r, lexer\<lparr>input := inp\<rparr>))
      else if peek (input lexer) = CHR 0x22 \<or> peek (input lexer) = CHR 0x27
      then assign_token (case Helper_String (input lexer) of (r, inp) \<Rightarrow> (r, lexer\<lparr>input := inp\<rparr>))
      else assign_token (Helper_Char NextToken lexer))"
  by pat_completeness auto
termination
  by (relation "measure lexer_measure") simp_all

declare NextToken.simps [simp del]

text \<open>The results of the first \<open>n\<close> calls of \<open>NextToken\<close>, up to the first exception.\<close>

fun NextTokens :: "nat \<Rightarrow> Lexer \<Rightarrow> (lexer_error + Token) list" where
  "NextTokens 0 lexer = []"
| "NextTokens (Suc n) lexer =
     (case NextToken lexer of
        (Inl e, lexer') \<Rightarrow> [Inl e]
      | (Inr t, lexer') \<Rightarrow> Inr t # NextTokens n lexer')"

text \<open>
  Modelled from the spec: the members of a new \<open>Lexer\<close>, whose initialisers are in
  lexer.h. The previous token starts as the \<open>Eof\<close> sentinel, the depth counter at zero and
  the equal-depth flag unset. The constructor then calls \<open>NextToken\<close> once, so the
  first element of \<open>Lexer_tokens\<close> is the token the constructor reads.
\<close>

definition Lexer_init :: "string \<Rightarrow> Lexer" where
  "Lexer_init inp = \<lparr>input = inp, token = T_Eof, indent_count = 0, indent_equal = False\<rparr>"

definition Lexer_tokens :: "nat \<Rightarrow> string \<Rightarrow> (lexer_error + Token) list" where
  "Lexer_tokens n inp = NextTokens n (Lexer_init inp)"

text \<open>The number of \<open>Indent\<close> tokens minus the number of \<open>Dedent\<close> tokens of a token stream.\<close>

definition indent_balance :: "(lexer_error + Token) list \<Rightarrow> int" where
  "indent_balance ts = int (count_list ts (Inr T_Indent)) - int (count_list ts (Inr T_Dedent))"

text \<open>
  What holds of the lexer before and after every call of \<open>NextToken\<close>: the depth
  counter is not negative, and when the current token is a \<open>Dedent\<close> that left the
  spaces of a line in the input, the depth of that line is at most the counter.
  \<open>depth_change\<close> is what a token adds to the counter, and \<open>step_ok\<close> what one call
  does: the counter moves by the token returned and the invariant is kept.
\<close>

definition lexer_inv :: "Lexer \<Rightarrow> bool" where
  "lexer_inv lexer =
     (0 \<le> indent_count lexer \<and>
      (token lexer = T_Dedent \<and> peek (input lexer) = CHR '' '' \<longrightarrow>
         int (length (takeWhile is_space (input lexer)) div 2) \<le> indent_count lexer))"

definition depth_change :: "Token \<Rightarrow> int" where
  "depth_change t = (if t = T_Indent then 1 else if t = T_Dedent then - 1 else 0)"

definition step_ok :: "Lexer \<Rightarrow> lex_result \<Rightarrow> bool" where
  "step_ok lexer res =
     (case res of
        (Inl e, lexer') \<Rightarrow> True
      | (Inr t, lexer') \<Rightarrow>
          indent_count lexer' = indent_count lexer + depth_change t \<and>
          (lexer_inv lexer \<longrightarrow> lexer_inv (lexer'\<lparr>token := t\<rparr>)))"

text \<open>
  Where the error of an odd run of spaces may come from: when a call ends in it, the
  current token is one of those after which \<open>Helper::Space\<close> measures the indentation,
  and the stream stands behind the spaces it has read, at a byte that is not a line feed.
\<close>

definition odd_spaces_ok :: "lex_result \<Rightarrow> bool" where
  "odd_spaces_ok res =
     (case res of
        (Inl e, lexer') \<Rightarrow>
          e = LexerError ''Indent(): odd spaces'' \<longrightarrow>
            (token lexer' = T_Newline \<or> token lexer' = T_Indent \<or> token lexer' = T_Dedent) \<and>
            peek (input lexer') \<noteq> CHR '' '' \<and> peek (input lexer') \<noteq> CHR 0x0A
      | (Inr t, lexer') \<Rightarrow> True)"

text \<open>
  What stands behind an \<open>Indent\<close> or a \<open>Dedent\<close> that a call returns: a line that
  does not consist of spaces and a line feed.
\<close>

definition line_follows :: "lex_result \<Rightarrow> bool" where
  "line_follows res =
     (case res of
        (Inl e, lexer') \<Rightarrow> True
      | (Inr t, lexer') \<Rightarrow>
          t = T_Indent \<or> t = T_Dedent \<longrightarrow> peek (dropWhile is_space (input lexer')) \<noteq> CHR 0x0A)"

text \<open>The lexer after \<open>n\<close> calls of \<open>NextToken\<close> that returned a token.\<close>

fun lexer_after :: "nat \<Rightarrow> Lexer \<Rightarrow> Lexer option" where
  "lexer_after 0 lexer = Some lexer"
| "lexer_after (Suc n) lexer =
     (case NextToken lexer of
        (Inl e, lexer') \<Rightarrow> None
      | (Inr t, lexer') \<Rightarrow> lexer_after n lexer')"

section \<open>Properties of the executor\<close>

lemmas node_defs =
  Statement_Execute_def Assignment_Execute_def VariableValue_Execute_def FieldAssignment_Execute_def
  Div_Execute_def MethodBody_Execute_def ClassDefinition_Execute_def NewInstance_Execute_def
  Or_Execute_def And_Execute_def Return_Execute_def on_value_def with_closure_def
  TryAs_Number_def TryAs_Bool_def TryAs_Class_def TryAs_ClassInstance_def TryAs_String_def
  Get_def Own_def HasMethod_def GetName_def

subsection \<open>MethodBody\<close>

text \<open>
  What the handler does, for every body: the value of a \<open>Return\<close> comes back, and a
  \<open>runtime_error\<close> of any other message is turned into the empty holder.
\<close>

lemma MethodBody_catches_every_runtime_error:
  assumes "Execute n method_body closure st = Some (Inl (runtime_error what), c, s)"
  shows "Execute (Suc n) (MethodBody method_body) closure st =
           Some (Inr (if what = ''return'' then (case c ''return'' of Some h \<Rightarrow> h | None \<Rightarrow> Empty)
                      else Empty), c, s)"
  using assms
  by (auto simp: Statement_Execute_def MethodBody_Execute_def split: option.splits)

lemma MethodBody_Return:
  assumes "Execute n statement closure st = Some (Inr h, c, s)"
  shows "Execute (Suc (Suc n)) (MethodBody (Return statement)) closure st =
           Some (Inr h, c(''return'' \<mapsto> h), s)"
  using assms
  by (simp add: Statement_Execute_def MethodBody_Execute_def Return_Execute_def on_value_def)

text \<open>
  C1. A \<open>MethodBody\<close> should catch only the signal of a \<open>Return\<close> in its body and let every
  other runtime error through to its caller. The handler of \<open>MethodBody::Execute\<close> catches
  every \<open>std::runtime_error\<close> and rethrows none: a division by zero, which the body
  \<open>Div(a, b)\<close> raises when run on its own, is lost once the same body is wrapped in a
  \<open>MethodBody\<close>, and the wrapped body returns the empty holder as if it had finished.
\<close>

theorem MethodBody_swallows_runtime_error:
  "Execute 2 (Div (VariableValue ''a'' []) (VariableValue ''b'' []))
       [''a'' \<mapsto> Ref 0, ''b'' \<mapsto> Ref 1] \<lparr>heap = [Number 1, Number 0], out = []\<rparr>
     = Some (Inl (runtime_error ''Div(Number, 0): divide by zero''),
             [''a'' \<mapsto> Ref 0, ''b'' \<mapsto> Ref 1], \<lparr>heap = [Number 1, Number 0], out = []\<rparr>)
   \<and> Execute 3 (MethodBody (Div (VariableValue ''a'' []) (VariableValue ''b'' [])))
       [''a'' \<mapsto> Ref 0, ''b'' \<mapsto> Ref 1] \<lparr>heap = [Number 1, Number 0], out = []\<rparr>
     = Some (Inr Empty, [''a'' \<mapsto> Ref 0, ''b'' \<mapsto> Ref 1], \<lparr>heap = [Number 1, Number 0], out = []\<rparr>)"
  by (simp add: eval_nat_numeral node_defs)

subsection \<open>ClassDefinition\<close>

text \<open>
  C2, as stated: executing a \<open>ClassDefinition\<close> binds the name of the class to a holder of
  the \<open>Class\<close> descriptor itself. It does not: with the class \<open>A\<close> at address \<open>0\<close>, the
  name \<open>A\<close> is bound to the holder \<open>Ref 1\<close> of a new instance of \<open>A\<close> that the node
  allocates, and not to \<open>Ref 0\<close>.
\<close>

theorem ClassDefinition_counterexample:
  "Execute 1 (ClassDefinition (Ref 0)) Map.empty \<lparr>heap = [ClassObject (Class ''A'' [] None)], out = []\<rparr>
     = Some (Inr (Ref 1), [''A'' \<mapsto> Ref 1],
             \<lparr>heap = [ClassObject (Class ''A'' [] None), ClassInstance (Class ''A'' [] None) Map.empty], out = []\<rparr>)"
  by (simp add: node_defs instance_class_def)

text \<open>
  C2, amended: for every \<open>ClassDefinition\<close> node carrying a class value, executing it
  allocates a new instance of that class, as a \<open>NewInstance\<close> without arguments does
  (running \<open>__init__\<close> on it when the class has one without parameters), binds the name of
  the class in the current environment to the owning holder of that instance and returns that
  holder; no other key of the environment changes, and nothing is bound when \<open>__init__\<close>
  raises.
\<close>

theorem ClassDefinition_binds_new_instance:
  assumes "TryAs_Class st cls = Some obj"
  shows "(\<not> HasMethod obj ''__init__'' 0 \<longrightarrow>
           Execute (Suc n) (ClassDefinition cls) closure st =
             Some (Inr (Ref (length (heap st))),
                   closure(GetName obj \<mapsto> Ref (length (heap st))),
                   st\<lparr>heap := heap st @ [ClassInstance obj Map.empty]\<rparr>))
       \<and> (HasMethod obj ''__init__'' 0 \<longrightarrow>
           Execute (Suc n) (ClassDefinition cls) closure st =
             (case Call (Execute n) (length (heap st)) ''__init__'' []
                     (st\<lparr>heap := heap st @ [ClassInstance obj Map.empty]\<rparr>) of
                None \<Rightarrow> None
              | Some (Inl e, s') \<Rightarrow> Some (Inl e, closure, s')
              | Some (Inr r, s') \<Rightarrow>
                  Some (Inr (Ref (length (heap st))),
                        closure(GetName obj \<mapsto> Ref (length (heap st))), s')))"
  using assms
  by (auto simp: Statement_Execute_def ClassDefinition_Execute_def NewInstance_Execute_def on_value_def
      Own_def TryAs_ClassInstance_def Get_def instance_class_def
      split: option.splits sum.splits prod.splits)

theorem ClassDefinition_binds_new_instance_witness:
  "Execute 1 (ClassDefinition (Ref 0)) [''x'' \<mapsto> Ref 0]
       \<lparr>heap = [ClassObject (Class ''A'' [] None)], out = []\<rparr>
     = Some (Inr (Ref 1), [''x'' \<mapsto> Ref 0, ''A'' \<mapsto> Ref 1],
             \<lparr>heap = [ClassObject (Class ''A'' [] None), ClassInstance (Class ''A'' [] None) Map.empty],
              out = []\<rparr>)
   \<and> Execute 3 (ClassDefinition (Ref 0)) Map.empty
       \<lparr>heap = [ClassObject (Class ''B'' [Method ''__init__'' [] (MethodBody (Compound []))] None)], out = []\<rparr>
     = Some (Inr (Ref 1), [''B'' \<mapsto> Ref 1],
             \<lparr>heap = [ClassObject (Class ''B'' [Method ''__init__'' [] (MethodBody (Compound []))] None),
                      ClassInstance (Class ''B'' [Method ''__init__'' [] (MethodBody (Compound []))] None) Map.empty],
              out = []\<rparr>)"
proof -
  have a: "TryAs_Class \<lparr>heap = [ClassObject c], out = []\<rparr> (Ref 0) = Some c" for c
    by (simp add: TryAs_Class_def Get_def)
  have init: "Call (Execute (Suc (Suc 0))) (Suc 0) ''__init__'' []
      \<lparr>heap = [ClassObject (Class ''B'' [Method ''__init__'' [] (MethodBody (Compound []))] None),
               ClassInstance (Class ''B'' [Method ''__init__'' [] (MethodBody (Compound []))] None) Map.empty],
       out = []\<rparr> =
      Some (Inr Empty,
        \<lparr>heap = [ClassObject (Class ''B'' [Method ''__init__'' [] (MethodBody (Compound []))] None),
               ClassInstance (Class ''B'' [Method ''__init__'' [] (MethodBody (Compound []))] None) Map.empty],
       out = []\<rparr>)"
    by (simp add: Call_def HasMethod_def instance_class_def Statement_Execute_def MethodBody_Execute_def)
  show ?thesis
    using ClassDefinition_binds_new_instance [OF a, of "Class ''A'' [] None" 0 "[''x'' \<mapsto> Ref 0]"]
      ClassDefinition_binds_new_instance [OF a,
        of "Class ''B'' [Method ''__init__'' [] (MethodBody (Compound []))] None" "Suc (Suc 0)" Map.empty]
    by (simp add: HasMethod_def GetName_def init eval_nat_numeral del: Execute.simps)
qed

subsection \<open>VariableValue\<close>

text \<open>
  C3. A dotted \<open>VariableValue\<close> should fail when the value of an intermediate segment is
  not a \<open>ClassInstance\<close>. The loop of \<open>VariableValue::Execute\<close> moves to the fields of
  the value only when it is an instance and has no branch for the other case: with \<open>a = 1\<close>
  and \<open>b = 2\<close> in the environment, \<open>a.b\<close> looks \<open>b\<close> up in the environment again and
  evaluates to the holder of \<open>2\<close>.
\<close>

theorem VariableValue_dotted_through_number:
  "Execute 1 (VariableValue [] [''a'', ''b''])
       [''a'' \<mapsto> Ref 0, ''b'' \<mapsto> Ref 1] \<lparr>heap = [Number 1, Number 2], out = []\<rparr>
     = Some (Inr (Ref 1), [''a'' \<mapsto> Ref 0, ''b'' \<mapsto> Ref 1], \<lparr>heap = [Number 1, Number 2], out = []\<rparr>)"
  by (simp add: node_defs)

subsection \<open>And, Or\<close>

text \<open>
  C6. When the left operand of an \<open>And\<close> evaluates to \<open>Bool False\<close>, or the left operand
  of an \<open>Or\<close> to \<open>Bool True\<close>, the node returns the holder of the left operand in the
  closure and the state the left operand left behind, whatever the right operand is: the
  right operand is not run. Otherwise the result is the holder of the right operand, and an
  operand that is not a \<open>Bool\<close>, at either position that was evaluated, raises the
  \<open>runtime_error\<close> of the node (\<open>And(?, ?)\<close>, \<open>Or(?, ?)\<close>), the only exception type
  of statement.cpp, which stands for the spec's TypeError.
\<close>

theorem And_Or_short_circuit:
  assumes "Execute n lhs closure st = Some (Inr lhs_obj_hold, c1, s1)"
  shows "(TryAs_Bool s1 lhs_obj_hold = Some False \<longrightarrow>
            Execute (Suc n) (And lhs rhs) closure st = Some (Inr lhs_obj_hold, c1, s1))
       \<and> (TryAs_Bool s1 lhs_obj_hold = Some True \<longrightarrow>
            Execute (Suc n) (Or lhs rhs) closure st = Some (Inr lhs_obj_hold, c1, s1))
       \<and> (TryAs_Bool s1 lhs_obj_hold = Some True \<longrightarrow>
            (\<forall>rhs_obj_hold c2 s2. Execute n rhs c1 s1 = Some (Inr rhs_obj_hold, c2, s2) \<longrightarrow>
               Execute (Suc n) (And lhs rhs) closure st =
                 (if TryAs_Bool s2 rhs_obj_hold = None
                  then Some (Inl (runtime_error ''And(?, ?)''), c2, s2)
                  else Some (Inr rhs_obj_hold, c2, s2))))
       \<and> (TryAs_Bool s1 lhs_obj_hold = Some False \<longrightarrow>
            (\<forall>rhs_obj_hold c2 s2. Execute n rhs c1 s1 = Some (Inr rhs_obj_hold, c2, s2) \<longrightarrow>
               Execute (Suc n) (Or lhs rhs) closure st =
                 (if TryAs_Bool s2 rhs_obj_hold = None
                  then Some (Inl (runtime_error ''Or(?, ?)''), c2, s2)
                  else Some (Inr rhs_obj_hold, c2, s2))))
       \<and> (TryAs_Bool s1 lhs_obj_hold = None \<longrightarrow>
            Execute (Suc n) (And lhs rhs) closure st = Some (Inl (runtime_error ''And(?, ?)''), c1, s1) \<and>
            Execute (Suc n) (Or lhs rhs) closure st = Some (Inl (runtime_error ''Or(?, ?)''), c1, s1))"
  using assms
  by (auto simp: Statement_Execute_def And_Execute_def Or_Execute_def on_value_def)

theorem And_Or_short_circuit_witness:
  "Execute 2 (And (VariableValue ''a'' []) (VariableValue ''b'' []))
       [''a'' \<mapsto> Ref 0] \<lparr>heap = [Bool False], out = []\<rparr>
     = Some (Inr (Ref 0), [''a'' \<mapsto> Ref 0], \<lparr>heap = [Bool False], out = []\<rparr>)
   \<and> Execute 2 (Or (VariableValue ''a'' []) (VariableValue ''b'' []))
       [''a'' \<mapsto> Ref 0] \<lparr>heap = [Bool True], out = []\<rparr>
     = Some (Inr (Ref 0), [''a'' \<mapsto> Ref 0], \<lparr>heap = [Bool True], out = []\<rparr>)
   \<and> Execute 2 (And (VariableValue ''a'' []) (VariableValue ''b'' []))
       [''a'' \<mapsto> Ref 0, ''b'' \<mapsto> Ref 1] \<lparr>heap = [Bool True, Bool False], out = []\<rparr>
     = Some (Inr (Ref 1), [''a'' \<mapsto> Ref 0, ''b'' \<mapsto> Ref 1], \<lparr>heap = [Bool True, Bool False], out = []\<rparr>)
   \<and> Execute 2 (Or (VariableValue ''a'' []) (VariableValue ''b'' []))
       [''a'' \<mapsto> Ref 0, ''b'' \<mapsto> Ref 1] \<lparr>heap = [Bool False, Number 5], out = []\<rparr>
     = Some (Inl (runtime_error ''Or(?, ?)''), [''a'' \<mapsto> Ref 0, ''b'' \<mapsto> Ref 1],
             \<lparr>heap = [Bool False, Number 5], out = []\<rparr>)
   \<and> Execute 2 (And (VariableValue ''a'' []) (VariableValue ''b'' []))
       [''a'' \<mapsto> Ref 0] \<lparr>heap = [Number 5], out = []\<rparr>
     = Some (Inl (runtime_error ''And(?, ?)''), [''a'' \<mapsto> Ref 0], \<lparr>heap = [Number 5], out = []\<rparr>)"
proof -
  have lhs: "Execute (Suc 0) (VariableValue ''a'' []) c s = Some (Inr (Ref 0), c, s)"
    if "c ''a'' = Some (Ref 0)" for c s
    using that by (simp add: Statement_Execute_def VariableValue_Execute_def)
  have rhs: "Execute (Suc 0) (VariableValue ''b'' []) c s = Some (Inr (Ref (Suc 0)), c, s)"
    if "c ''b'' = Some (Ref (Suc 0))" for c s
    using that by (simp add: Statement_Execute_def VariableValue_Execute_def)
  note t1 = And_Or_short_circuit [OF lhs, of "[''a'' \<mapsto> Ref 0]" "\<lparr>heap = [Bool False], out = []\<rparr>"
      "VariableValue ''b'' []"]
  note t2 = And_Or_short_circuit [OF lhs, of "[''a'' \<mapsto> Ref 0]" "\<lparr>heap = [Bool True], out = []\<rparr>"
      "VariableValue ''b'' []"]
  note t3 = And_Or_short_circuit [OF lhs, of "[''a'' \<mapsto> Ref 0, ''b'' \<mapsto> Ref 1]"
      "\<lparr>heap = [Bool True, Bool False], out = []\<rparr>" "VariableValue ''b'' []"]
  note t4 = And_Or_short_circuit [OF lhs, of "[''a'' \<mapsto> Ref 0, ''b'' \<mapsto> Ref 1]"
      "\<lparr>heap = [Bool False, Number 5], out = []\<rparr>" "VariableValue ''b'' []"]
  note t5 = And_Or_short_circuit [OF lhs, of "[''a'' \<mapsto> Ref 0]" "\<lparr>heap = [Number 5], out = []\<rparr>"
      "VariableValue ''b'' []"]
  show ?thesis
    using t1 t2 t3 t4 t5 by (simp add: TryAs_Bool_def Get_def rhs numeral_2_eq_2 del: Execute.simps)
qed

subsection \<open>Div\<close>

lemma trunc_quotient_in_range:
  fixes a b :: "32 word"
  assumes "b \<noteq> 0" and "\<not> (sint a = - (2 ^ 31) \<and> sint b = - 1)"
  shows "- (2 ^ 31) \<le> sint a sdiv sint b \<and> sint a sdiv sint b < 2 ^ 31"
proof -
  have ra: "- (2 ^ 31) \<le> sint a" "sint a < 2 ^ 31"
    using sint_ge [of a] sint_lt [of a] by simp_all
  have nz: "sint b \<noteq> 0"
    using assms(1) by (simp add: signed_eq_0_iff)
  have "\<bar>sint a\<bar> div \<bar>sint b\<bar> \<le> \<bar>sint a\<bar> div 1"
    using nz by (intro zdiv_mono2) simp_all
  then have le: "\<bar>sint a\<bar> div \<bar>sint b\<bar> \<le> \<bar>sint a\<bar>"
    by simp
  have nonneg: "0 \<le> \<bar>sint a\<bar> div \<bar>sint b\<bar>"
    by (simp add: div_int_pos_iff)
  have abs_eq: "\<bar>sint a sdiv sint b\<bar> = \<bar>sint a\<bar> div \<bar>sint b\<bar>"
    using nz nonneg by (cases "sint a = 0") (simp_all add: signed_divide_int_def abs_mult abs_sgn_eq)
  show ?thesis
  proof (cases "sint a = - (2 ^ 31)")
    case False
    then have "\<bar>sint a\<bar> < 2 ^ 31" using ra by simp
    with le abs_eq have "\<bar>sint a sdiv sint b\<bar> < 2 ^ 31" by simp
    then show ?thesis by linarith
  next
    case True
    with assms(2) have nb: "sint b \<noteq> - 1" by simp
    show ?thesis
    proof (cases "sint b = 1")
      case True
      with \<open>sint a = - (2 ^ 31)\<close> show ?thesis by (simp add: signed_divide_int_def)
    next
      case False
      with nb nz have "2 \<le> \<bar>sint b\<bar>" by simp
      then have "\<bar>sint a\<bar> div \<bar>sint b\<bar> \<le> \<bar>sint a\<bar> div 2"
        by (intro zdiv_mono2) simp_all
      also have "\<dots> < 2 ^ 31" using True by simp
      finally have "\<bar>sint a sdiv sint b\<bar> < 2 ^ 31" using abs_eq by simp
      then show ?thesis by linarith
    qed
  qed
qed

lemma sint_trunc_quotient:
  fixes a b :: "32 word"
  assumes "b \<noteq> 0" and "\<not> (sint a = - (2 ^ 31) \<and> sint b = - 1)"
  shows "sint (word_of_int (sint a sdiv sint b) :: 32 word) =
           sgn (sint a) * sgn (sint b) * (\<bar>sint a\<bar> div \<bar>sint b\<bar>)"
proof -
  have "sint (word_of_int (sint a sdiv sint b) :: 32 word) = sint a sdiv sint b"
    using trunc_quotient_in_range [OF assms]
    by (simp add: sint_sbintrunc' signed_take_bit_int_eq_self)
  then show ?thesis
    by (simp only: signed_divide_int_def)
qed

text \<open>
  C7, as stated: when both operands of a \<open>Div\<close> evaluate to numbers and the right one
  is not zero, the result is the \<open>Number\<close> quotient. \<open>Div::Execute\<close> tests the divisor
  for zero and then divides \<open>int\<close> by \<open>int\<close>, and no node of statement.cpp looks for
  an overflow: with the operands \<open>INT_MIN\<close> and \<open>-1\<close>, both numbers and the right one
  not zero, the quotient is \<open>2147483648\<close>, which no \<open>Number\<close> holds; the division
  overflows, and the node returns no \<open>Number\<close> and raises no \<open>runtime_error\<close>. The
  operands are values a program computes: \<open>INT_MIN\<close> is \<open>0 - 2147483647 - 1\<close> and \<open>-1\<close>
  is \<open>0 - 1\<close>, as in the second run below, of \<open>(z - m - i) / (z - i)\<close> with \<open>z = 0\<close>,
  \<open>m = 2147483647\<close> and \<open>i = 1\<close>.
\<close>

theorem Div_overflows_at_INT_MIN_by_minus_one:
  "Execute 2 (Div (VariableValue ''a'' []) (VariableValue ''b'' []))
       [''a'' \<mapsto> Ref 0, ''b'' \<mapsto> Ref 1] \<lparr>heap = [Number (- 2147483648), Number (- 1)], out = []\<rparr>
     = Some (Inl integer_overflow, [''a'' \<mapsto> Ref 0, ''b'' \<mapsto> Ref 1],
             \<lparr>heap = [Number (- 2147483648), Number (- 1)], out = []\<rparr>)
   \<and> Execute 4 (Div (Sub (Sub (VariableValue ''z'' []) (VariableValue ''m'' [])) (VariableValue ''i'' []))
                    (Sub (VariableValue ''z'' []) (VariableValue ''i'' [])))
       [''z'' \<mapsto> Ref 0, ''m'' \<mapsto> Ref 1, ''i'' \<mapsto> Ref 2]
       \<lparr>heap = [Number 0, Number 2147483647, Number 1], out = []\<rparr>
     = Some (Inl integer_overflow, [''z'' \<mapsto> Ref 0, ''m'' \<mapsto> Ref 1, ''i'' \<mapsto> Ref 2],
             \<lparr>heap = [Number 0, Number 2147483647, Number 1,
                      Number (- 2147483647), Number (- 2147483648), Number (- 1)], out = []\<rparr>)"
  by (simp add: eval_nat_numeral node_defs Sub_Execute_def)

text \<open>
  C7, amended: when both operands of a \<open>Div\<close> evaluate to numbers, the right one is not
  zero and the two are not \<open>INT_MIN\<close> and \<open>-1\<close>, the result is a new \<open>Number\<close> holding
  the quotient of the signed values rounded towards zero; when the right one is zero the
  node raises the \<open>runtime_error\<close> \<open>Div(Number, 0): divide by zero\<close> (the spec's
  ArithmeticError); when an operand is not a number it raises \<open>Div(Number, ?)\<close> or
  \<open>Div(?, ?)\<close> (the spec's TypeError) in the state the operands left behind, so that no
  method of the operands has run.
\<close>

theorem Div_Execute_cases:
  assumes "Execute n lhs closure st = Some (Inr l, c1, s1)"
    and "Execute n rhs c1 s1 = Some (Inr r, c2, s2)"
  shows "(\<forall>a b. TryAs_Number s2 l = Some a \<and> TryAs_Number s2 r = Some b \<and> b \<noteq> 0 \<and>
            \<not> (sint a = - (2 ^ 31) \<and> sint b = - 1) \<longrightarrow>
            Execute (Suc n) (Div lhs rhs) closure st =
              Some (Inr (Ref (length (heap s2))), c2,
                    s2\<lparr>heap := heap s2 @ [Number (word_of_int (sint a sdiv sint b))]\<rparr>) \<and>
            sint (word_of_int (sint a sdiv sint b) :: 32 word) =
              sgn (sint a) * sgn (sint b) * (\<bar>sint a\<bar> div \<bar>sint b\<bar>))
       \<and> (\<forall>a. TryAs_Number s2 l = Some a \<and> TryAs_Number s2 r = Some 0 \<longrightarrow>
            Execute (Suc n) (Div lhs rhs) closure st =
              Some (Inl (runtime_error ''Div(Number, 0): divide by zero''), c2, s2))
       \<and> (\<forall>a. TryAs_Number s2 l = Some a \<and> TryAs_Number s2 r = None \<longrightarrow>
            Execute (Suc n) (Div lhs rhs) closure st =
              Some (Inl (runtime_error ''Div(Number, ?)''), c2, s2))
       \<and> (TryAs_Number s2 l = None \<longrightarrow>
            Execute (Suc n) (Div lhs rhs) closure st =
              Some (Inl (runtime_error ''Div(?, ?)''), c2, s2))"
  using assms
  by (auto simp: Statement_Execute_def Div_Execute_def on_value_def Own_def
      intro: sint_trunc_quotient)

theorem Div_Execute_cases_witness:
  "Execute 2 (Div (VariableValue ''a'' []) (VariableValue ''b'' []))
       [''a'' \<mapsto> Ref 0, ''b'' \<mapsto> Ref 1] \<lparr>heap = [Number (- 7), Number 2], out = []\<rparr>
     = Some (Inr (Ref 2), [''a'' \<mapsto> Ref 0, ''b'' \<mapsto> Ref 1],
             \<lparr>heap = [Number (- 7), Number 2, Number (- 3)], out = []\<rparr>)
   \<and> Execute 2 (Div (VariableValue ''a'' []) (VariableValue ''b'' []))
       [''a'' \<mapsto> Ref 0, ''b'' \<mapsto> Ref 1] \<lparr>heap = [Number 7, Number 0], out = []\<rparr>
     = Some (Inl (runtime_error ''Div(Number, 0): divide by zero''), [''a'' \<mapsto> Ref 0, ''b'' \<mapsto> Ref 1],
             \<lparr>heap = [Number 7, Number 0], out = []\<rparr>)
   \<and> Execute 2 (Div (VariableValue ''a'' []) (VariableValue ''b'' []))
       [''a'' \<mapsto> Ref 0, ''b'' \<mapsto> Ref 1] \<lparr>heap = [Number 7, String ''x''], out = []\<rparr>
     = Some (Inl (runtime_error ''Div(Number, ?)''), [''a'' \<mapsto> Ref 0, ''b'' \<mapsto> Ref 1],
             \<lparr>heap = [Number 7, String ''x''], out = []\<rparr>)
   \<and> Execute 2 (Div (VariableValue ''a'' []) (VariableValue ''b'' []))
       [''a'' \<mapsto> Ref 0, ''b'' \<mapsto> Ref 1] \<lparr>heap = [ClassInstance (Class ''A'' [] None) Map.empty, Number 2], out = []\<rparr>
     = Some (Inl (runtime_error ''Div(?, ?)''), [''a'' \<mapsto> Ref 0, ''b'' \<mapsto> Ref 1],
             \<lparr>heap = [ClassInstance (Class ''A'' [] None) Map.empty, Number 2], out = []\<rparr>)"
proof -
  have lhs: "Execute (Suc 0) (VariableValue ''a'' []) [''a'' \<mapsto> Ref 0, ''b'' \<mapsto> Ref 1] s =
      Some (Inr (Ref 0), [''a'' \<mapsto> Ref 0, ''b'' \<mapsto> Ref 1], s)" for s
    by (simp add: Statement_Execute_def VariableValue_Execute_def)
  have rhs: "Execute (Suc 0) (VariableValue ''b'' []) [''a'' \<mapsto> Ref 0, ''b'' \<mapsto> Ref 1] s =
      Some (Inr (Ref 1), [''a'' \<mapsto> Ref 0, ''b'' \<mapsto> Ref 1], s)" for s
    by (simp add: Statement_Execute_def VariableValue_Execute_def)
  have q: "word_of_int (sint (- 7 :: 32 word) sdiv sint (2 :: 32 word)) = (- 3 :: 32 word)"
    by (simp add: signed_divide_int_def)
  show ?thesis
    using Div_Execute_cases [OF lhs rhs, of "\<lparr>heap = [Number (- 7), Number 2], out = []\<rparr>"]
      Div_Execute_cases [OF lhs rhs, of "\<lparr>heap = [Number 7, Number 0], out = []\<rparr>"]
      Div_Execute_cases [OF lhs rhs, of "\<lparr>heap = [Number 7, String ''x''], out = []\<rparr>"]
      Div_Execute_cases [OF lhs rhs, of "\<lparr>heap = [ClassInstance (Class ''A'' [] None) Map.empty, Number 2], out = []\<rparr>"]
    by (simp add: TryAs_Number_def Get_def q numeral_2_eq_2 del: Execute.simps)
qed

subsection \<open>Derived comparisons\<close>

text \<open>
  C8. For all holders and every state, \<open>NotEqual\<close> is the negation of \<open>Equal\<close>,
  \<open>Greater\<close> is the conjunction of the negations of \<open>Less\<close> and \<open>Equal\<close>,
  \<open>LessOrEqual\<close> is the negation of \<open>Greater\<close> and \<open>GreaterOrEqual\<close> the negation of
  \<open>Less\<close>; the two sides agree on the truth value, on the exception raised and on the
  state left behind.
\<close>

theorem derived_comparisons:
  "NotEqual exec lhs rhs st = spec_not (Equal exec lhs rhs st)
   \<and> Greater exec lhs rhs st =
       spec_and (spec_not (Less exec lhs rhs st)) (\<lambda>s. spec_not (Equal exec lhs rhs s))
   \<and> LessOrEqual exec lhs rhs st = spec_not (Greater exec lhs rhs st)
   \<and> GreaterOrEqual exec lhs rhs st = spec_not (Less exec lhs rhs st)"
  by (auto simp: NotEqual_def Greater_def LessOrEqual_def GreaterOrEqual_def spec_not_def spec_and_def
      split: option.splits sum.splits prod.splits)

subsection \<open>Assignment, FieldAssignment\<close>

text \<open>
  An \<open>Assignment\<close> runs its right-hand side once (the closure and the state it leaves are
  those of one run, with the new binding added) and returns the very holder it has just
  bound to the name.
\<close>

lemma Assignment_returns_bound_holder:
  assumes "Execute n rv closure st = Some (Inr h, c1, s1)"
  shows "Execute (Suc n) (Assignment var rv) closure st = Some (Inr h, c1(var \<mapsto> h), s1) \<and>
         (c1(var \<mapsto> h)) var = Some h"
  using assms by (simp add: Statement_Execute_def Assignment_Execute_def on_value_def)

text \<open>
  C10. An \<open>Assignment\<close> and a \<open>FieldAssignment\<close> should run their right-hand side once
  and return the very holder they have just bound in the target environment. An
  \<open>Assignment\<close> does. \<open>FieldAssignment::Execute\<close> resolves its receiver to a plain pointer
  before it runs the right-hand side and writes through that pointer afterwards, and
  nothing keeps the receiver alive in between. In \<open>o.b.v = o.drop(one)\<close>, where the
  method \<open>drop(x)\<close> of \<open>o\<close> runs \<open>self.b = x\<close> and returns \<open>x\<close>, the receiver is the
  instance at address \<open>1\<close>, and the field \<open>b\<close> of \<open>o\<close> is the only holder of it. The
  right-hand side returns the holder of \<open>one\<close> and leaves the field \<open>b\<close> of \<open>o\<close>
  holding \<open>one\<close>: no name of the closure and no field of an object holds the receiver any
  more. In the source the receiver was destroyed when its last holder was overwritten, and
  the write of its field \<open>v\<close> that follows goes through a dangling pointer: no holder is
  bound in a target environment.
\<close>

theorem FieldAssignment_receiver_released:
  "VariableValue_Execute [] [''o'', ''b''] [''o'' \<mapsto> Ref 0, ''one'' \<mapsto> Ref 2]
       \<lparr>heap = [ClassInstance
                  (Class ''O'' [Method ''drop'' [''x'']
                     (MethodBody (Compound [FieldAssignment ''self'' [] ''b'' (VariableValue ''x'' []),
                                           Return (VariableValue ''x'' [])]))] None)
                  [''b'' \<mapsto> Ref 1],
                ClassInstance (Class ''B'' [] None) Map.empty, Number 1], out = []\<rparr>
     = Inr (Ref 1)
   \<and> TryAs_ClassInstance
       \<lparr>heap = [ClassInstance
                  (Class ''O'' [Method ''drop'' [''x'']
                     (MethodBody (Compound [FieldAssignment ''self'' [] ''b'' (VariableValue ''x'' []),
                                           Return (VariableValue ''x'' [])]))] None)
                  [''b'' \<mapsto> Ref 1],
                ClassInstance (Class ''B'' [] None) Map.empty, Number 1], out = []\<rparr>
       (Ref 1) = Some 1
   \<and> Execute 5 (MethodCall (VariableValue ''o'' []) ''drop'' [VariableValue ''one'' []])
       [''o'' \<mapsto> Ref 0, ''one'' \<mapsto> Ref 2]
       \<lparr>heap = [ClassInstance
                  (Class ''O'' [Method ''drop'' [''x'']
                     (MethodBody (Compound [FieldAssignment ''self'' [] ''b'' (VariableValue ''x'' []),
                                           Return (VariableValue ''x'' [])]))] None)
                  [''b'' \<mapsto> Ref 1],
                ClassInstance (Class ''B'' [] None) Map.empty, Number 1], out = []\<rparr>
     = Some (Inr (Ref 2), [''o'' \<mapsto> Ref 0, ''one'' \<mapsto> Ref 2],
             \<lparr>heap = [ClassInstance
                        (Class ''O'' [Method ''drop'' [''x'']
                           (MethodBody (Compound [FieldAssignment ''self'' [] ''b'' (VariableValue ''x'' []),
                                                 Return (VariableValue ''x'' [])]))] None)
                        [''b'' \<mapsto> Ref 2],
                      ClassInstance (Class ''B'' [] None) Map.empty, Number 1], out = []\<rparr>)"
  by (simp add: eval_nat_numeral node_defs MethodCall_Execute_def Call_def closure_insert_def
      Fields_def set_Fields_def instance_class_def)

section \<open>Properties of the lexer\<close>

subsection \<open>NextToken sets the current token\<close>

lemma assign_token_idem: "assign_token (assign_token r) = assign_token r"
  by (auto simp: assign_token_def split: prod.splits sum.splits)

lemma assign_token_NextToken: "assign_token (NextToken lexer) = NextToken lexer"
  by (subst (1 2) NextToken.simps) (simp add: assign_token_idem, simp add: assign_token_def)

subsection \<open>The depth counter\<close>

text \<open>
  Every call of \<open>NextToken\<close> moves the depth counter by the token it returns, one up for
  an \<open>Indent\<close> and one down for a \<open>Dedent\<close>, and keeps the counter from going below
  zero. The proof follows the calls of \<open>NextToken\<close> by the measure of its termination.
\<close>

lemma spaces_putback:
  "replicate (length (takeWhile is_space xs)) (CHR '' '') @ dropWhile is_space xs = xs"
  by (induction xs) (simp_all add: is_space_def)

lemma peek_dropWhile_space: "peek (dropWhile is_space xs) \<noteq> CHR '' ''"
  by (induction xs) (simp_all add: is_space_def peek_def EOF_char_def)

lemma step_ok_retry:
  assumes "step_ok l1 (k l1)" and "indent_count l1 = indent_count lexer"
    and "lexer_inv lexer \<longrightarrow> lexer_inv l1"
  shows "step_ok lexer (k l1)"
  using assms by (auto simp: step_ok_def split: prod.splits sum.splits)

lemma Helper_Indent_ok:
  assumes k: "\<And>l. length (input l) \<le> n \<Longrightarrow> step_ok l (k l)"
    and n: "length (dropWhile is_space (input lexer)) \<le> n"
    and tok: "token lexer = T_Newline \<or> token lexer = T_Indent \<or> token lexer = T_Dedent"
    and sp: "peek (input lexer) = CHR '' ''"
  shows "step_ok lexer (Helper_Indent k lexer)"
proof -
  let ?l1 = "lexer\<lparr>input := dropWhile is_space (input lexer), indent_equal := False\<rparr>"
  have r1: "step_ok lexer (k (?l1\<lparr>indent_equal := b\<rparr>))" for b
  proof (rule step_ok_retry)
    show "step_ok (?l1\<lparr>indent_equal := b\<rparr>) (k (?l1\<lparr>indent_equal := b\<rparr>))"
      using n by (intro k) simp
    show "indent_count (?l1\<lparr>indent_equal := b\<rparr>) = indent_count lexer" by simp
    show "lexer_inv lexer \<longrightarrow> lexer_inv (?l1\<lparr>indent_equal := b\<rparr>)"
      by (simp add: lexer_inv_def peek_dropWhile_space)
  qed
  show ?thesis
    using r1 [of True] r1 [of False] sp
    by (auto simp: Helper_Indent_def Let_def step_ok_def depth_change_def lexer_inv_def spaces_putback
        peek_dropWhile_space)
qed


lemma Helper_Space_ok:
  assumes k: "\<And>l. length (input l) \<le> n \<Longrightarrow> step_ok l (k l)"
    and n: "length (dropWhile is_space (input lexer)) \<le> n"
    and sp: "peek (input lexer) = CHR '' ''"
  shows "step_ok lexer (Helper_Space k lexer)"
proof (cases "token lexer = T_Newline \<or> token lexer = T_Indent \<or> token lexer = T_Dedent")
  case True
  then show ?thesis
    using Helper_Indent_ok [OF k n True sp] by (simp add: Helper_Space_def)
next
  case False
  let ?l1 = "lexer\<lparr>input := dropWhile is_space (input lexer)\<rparr>"
  have "step_ok lexer (k ?l1)"
  proof (rule step_ok_retry)
    show "step_ok ?l1 (k ?l1)" using n by (intro k) simp
    show "indent_count ?l1 = indent_count lexer" by simp
    show "lexer_inv lexer \<longrightarrow> lexer_inv ?l1"
      using False by (simp add: lexer_inv_def)
  qed
  with False show ?thesis by (simp add: Helper_Space_def)
qed

lemma Helper_Comment_ok:
  assumes k: "\<And>l. length (input l) \<le> length rest \<Longrightarrow> step_ok l (k l)"
  shows "step_ok lexer (Helper_Comment k (lexer\<lparr>input := rest\<rparr>))"
proof -
  have retry: "step_ok lexer (k (lexer\<lparr>input := inp\<rparr>))"
    if "length inp \<le> length rest" and "peek inp \<noteq> CHR '' ''" for inp
  proof (rule step_ok_retry)
    show "step_ok (lexer\<lparr>input := inp\<rparr>) (k (lexer\<lparr>input := inp\<rparr>))"
      using that(1) by (intro k) simp
    show "indent_count (lexer\<lparr>input := inp\<rparr>) = indent_count lexer" by simp
    show "lexer_inv lexer \<longrightarrow> lexer_inv (lexer\<lparr>input := inp\<rparr>)"
      using that(2) by (simp add: lexer_inv_def)
  qed
  show ?thesis
  proof (cases "dropWhile (\<lambda>c. c \<noteq> CHR 0x0A) rest")
    case Nil
    with retry [of "[]"] show ?thesis
      by (simp add: Helper_Comment_def peek_def EOF_char_def del: dropWhile_eq_Nil_conv)
  next
    case (Cons c rest')
    have "length (dropWhile (\<lambda>c. c \<noteq> CHR 0x0A) rest) \<le> length rest"
      by (rule length_dropWhile_le)
    with Cons retry [of "putback (CHR 0x0A) rest'"] show ?thesis
      by (simp add: Helper_Comment_def putback_def peek_def)
  qed
qed

lemma keyword_or_id_change: "depth_change (keyword_or_id c s) = 0"
  by (simp add: keyword_or_id_def depth_change_def)

lemma keyword_or_id_not_Dedent: "keyword_or_id c s \<noteq> T_Dedent"
  by (simp add: keyword_or_id_def)

lemma Id_scan_ok: "step_ok lexer (case Id_scan lexer of (t, lexer') \<Rightarrow> (Inr t, lexer'))"
  by (simp add: Id_scan_def step_ok_def keyword_or_id_change keyword_or_id_not_Dedent lexer_inv_def)

lemma Helper_Id_ok:
  assumes "peek (input lexer) \<noteq> CHR '' ''"
  shows "step_ok lexer (case Helper_Id lexer of (t, lexer') \<Rightarrow> (Inr t, lexer'))"
proof (cases "indent_equal lexer")
  case True
  then show ?thesis
    by (simp add: Helper_Id_def Id_scan_def step_ok_def keyword_or_id_change
        keyword_or_id_not_Dedent lexer_inv_def)
next
  case False
  show ?thesis
  proof (cases "(token lexer = T_Newline \<or> token lexer = T_Dedent) \<and> indent_count lexer \<noteq> 0")
    case True
    with False assms show ?thesis
      by (simp add: Helper_Id_def step_ok_def depth_change_def lexer_inv_def)
  next
    case no: False
    with False show ?thesis
      using Id_scan_ok [of lexer] by (auto simp: Helper_Id_def)
  qed
qed

lemma Helper_Operation_ok:
  "step_ok lexer (case Helper_Operation inp of (r, inp') \<Rightarrow> (r, lexer\<lparr>input := inp'\<rparr>))"
  by (auto simp: Helper_Operation_def step_ok_def depth_change_def lexer_inv_def
      split: prod.splits sum.splits if_splits)

lemma Helper_Number_ok:
  "step_ok lexer (case Helper_Number inp of (r, inp') \<Rightarrow> (r, lexer\<lparr>input := inp'\<rparr>))"
  by (auto simp: Helper_Number_def step_ok_def depth_change_def lexer_inv_def
      split: prod.splits sum.splits if_splits)

lemma String_loop_token: "String_loop quot s inp = (Inr t, inp') \<Longrightarrow> \<exists>v. t = T_String v"
  by (induction quot s inp rule: String_loop.induct) (auto split: if_splits)

lemma Helper_String_ok:
  "step_ok lexer (case Helper_String inp of (r, inp') \<Rightarrow> (r, lexer\<lparr>input := inp'\<rparr>))"
  by (auto simp: Helper_String_def step_ok_def depth_change_def lexer_inv_def
      split: prod.splits sum.splits dest!: String_loop_token)

lemma Helper_Char_ok:
  assumes k: "\<And>l. lexer_measure l < lexer_measure lexer \<Longrightarrow> step_ok l (k l)"
  shows "step_ok lexer (Helper_Char k lexer)"
proof (cases "input lexer")
  case Nil
  then show ?thesis
    by (simp add: Helper_Char_def get_def EOF_char_def Let_def step_ok_def depth_change_def lexer_inv_def)
next
  case (Cons c rest)
  have short: "step_ok l (k l)" if "length (input l) \<le> length rest" for l
    using that Cons by (intro k small_input_measure) simp
  let ?l1 = "lexer\<lparr>input := rest\<rparr>"
  have same: "lexer\<lparr>input := putback c rest\<rparr> = lexer"
    using Cons by (simp add: putback_def)
  show ?thesis
  proof (cases "c = CHR 0x0A")
    case True
    have "step_ok lexer (k ?l1)" if "token lexer = T_Eof \<or> token lexer = T_Newline"
    proof (rule step_ok_retry)
      show "step_ok ?l1 (k ?l1)" by (rule short) simp
      show "indent_count ?l1 = indent_count lexer" by simp
      show "lexer_inv lexer \<longrightarrow> lexer_inv ?l1"
        using that by (auto simp: lexer_inv_def)
    qed
    with True Cons show ?thesis
      by (auto simp: Helper_Char_def get_def Let_def step_ok_def depth_change_def lexer_inv_def)
  next
    case nl: False
    show ?thesis
    proof (cases "c = CHR '' ''")
      case True
      have "step_ok lexer (Helper_Space k lexer)"
      proof (rule Helper_Space_ok [where n = "length rest"])
        show "step_ok l (k l)" if "length (input l) \<le> length rest" for l
          using that by (rule short)
        show "length (dropWhile is_space (input lexer)) \<le> length rest"
          using Cons True by (simp add: is_space_def length_dropWhile_le)
        show "peek (input lexer) = CHR '' ''"
          using Cons True by (simp add: peek_def)
      qed
      with True Cons same show ?thesis
        by (simp add: Helper_Char_def get_def Let_def)
    next
      case sp: False
      show ?thesis
      proof (cases "c = CHR ''#''")
        case True
        have "step_ok lexer (Helper_Comment k ?l1)"
          by (rule Helper_Comment_ok) (rule short)
        with True Cons show ?thesis
          by (simp add: Helper_Char_def get_def Let_def)
      next
        case cm: False
        let ?op = "c = CHR ''='' \<or> c = CHR ''!'' \<or> c = CHR ''>'' \<or> c = CHR ''<''"
        let ?punct = "c = CHR ''+'' \<or> c = CHR ''-'' \<or> c = CHR ''*'' \<or> c = CHR ''/'' \<or> c = CHR ''.'' \<or>
                     c = CHR '','' \<or> c = CHR '':'' \<or> c = CHR ''('' \<or> c = CHR '')''"
        have direct: "step_ok lexer (Inr t, ?l1)" if "t \<noteq> T_Indent" "t \<noteq> T_Dedent" for t
          using that by (simp add: step_ok_def depth_change_def lexer_inv_def)
        show ?thesis
        proof (cases ?punct)
          case True
          then have "Helper_Char k lexer = (Inr (T_Char c), ?l1)"
            using nl Cons by (simp add: Helper_Char_def get_def Let_def)
          with direct [of "T_Char c"] show ?thesis by simp
        next
          case np: False
          show ?thesis
          proof (cases ?op)
            case True
            then have "Helper_Char k lexer =
                (case Helper_Operation (putback c rest) of (r, inp) \<Rightarrow> (r, lexer\<lparr>input := inp\<rparr>))"
              using nl np Cons by (simp add: Helper_Char_def get_def Let_def)
            with Helper_Operation_ok [of lexer "putback c rest"] show ?thesis by simp
          next
            case nop: False
            show ?thesis
            proof (cases "c = CHR ''_''")
              case True
              have "step_ok lexer (case Helper_Id lexer of (t, lexer') \<Rightarrow> (Inr t, lexer'))"
                using True Cons by (intro Helper_Id_ok) (simp add: peek_def)
              moreover have "Helper_Char k lexer = (case Helper_Id lexer of (t, lexer') \<Rightarrow> (Inr t, lexer'))"
                using True Cons same by (simp add: Helper_Char_def get_def Let_def)
              ultimately show ?thesis by simp
            next
              case False
              then have "Helper_Char k lexer = (Inr T_Eof, ?l1)"
                using nl sp cm np nop Cons by (simp add: Helper_Char_def get_def Let_def)
              with direct [of T_Eof] show ?thesis by simp
            qed
          qed
        qed
      qed
    qed
  qed
qed

lemma assign_token_ok: "step_ok lexer r \<Longrightarrow> step_ok lexer (assign_token r)"
  by (auto simp: step_ok_def assign_token_def split: prod.splits sum.splits)

lemma NextToken_ok: "step_ok lexer (NextToken lexer)"
proof (induction lexer rule: measure_induct_rule [of lexer_measure])
  case (less lexer)
  show ?case
  proof (cases "peek (input lexer) = EOF_char")
    case True
    then have "NextToken lexer =
       (if indent_count lexer \<noteq> 0
        then (Inr T_Dedent, lexer\<lparr>token := T_Dedent, indent_count := indent_count lexer - 1\<rparr>)
        else if token lexer \<noteq> T_Eof \<and> token lexer \<noteq> T_Dedent \<and> token lexer \<noteq> T_Newline
        then (Inr T_Newline, lexer\<lparr>token := T_Newline\<rparr>)
        else (Inr T_Eof, lexer\<lparr>token := T_Eof\<rparr>))"
      by (subst NextToken.simps) simp
    with True show ?thesis
      by (simp add: step_ok_def depth_change_def lexer_inv_def EOF_char_def)
  next
    case eof: False
    show ?thesis
    proof (cases "isalpha (peek (input lexer))")
      case True
      then have "peek (input lexer) \<noteq> CHR '' ''"
        by (auto simp: isalpha_def)
      then have "step_ok lexer (assign_token (case Helper_Id lexer of (t, lexer') \<Rightarrow> (Inr t, lexer')))"
        by (intro assign_token_ok Helper_Id_ok)
      moreover have "NextToken lexer = assign_token (case Helper_Id lexer of (t, lexer') \<Rightarrow> (Inr t, lexer'))"
        using eof True by (subst NextToken.simps) simp
      ultimately show ?thesis by simp
    next
      case na: False
      show ?thesis
      proof (cases "isdigit (peek (input lexer))")
        case True
        have "NextToken lexer =
            assign_token (case Helper_Number (input lexer) of (r, inp) \<Rightarrow> (r, lexer\<lparr>input := inp\<rparr>))"
          using eof na True by (subst NextToken.simps) simp
        then show ?thesis
          by (simp add: assign_token_ok Helper_Number_ok)
      next
        case nd: False
        show ?thesis
        proof (cases "peek (input lexer) = CHR 0x22 \<or> peek (input lexer) = CHR 0x27")
          case True
          have "NextToken lexer =
              assign_token (case Helper_String (input lexer) of (r, inp) \<Rightarrow> (r, lexer\<lparr>input := inp\<rparr>))"
            using eof na nd True by (subst NextToken.simps) simp
          then show ?thesis
            by (simp add: assign_token_ok Helper_String_ok)
        next
          case False
          have "NextToken lexer = assign_token (Helper_Char NextToken lexer)"
            using eof na nd False by (subst NextToken.simps) simp
          moreover have "step_ok lexer (Helper_Char NextToken lexer)"
            by (rule Helper_Char_ok) (rule less.IH)
          ultimately show ?thesis
            by (simp add: assign_token_ok)
        qed
      qed
    qed
  qed
qed

lemma NextToken_token:
  assumes "NextToken lexer = (Inr t, lexer')"
  shows "token lexer' = t"
proof -
  have "assign_token (NextToken lexer) = NextToken lexer"
    by (rule assign_token_NextToken)
  with assms have "(Inr t, lexer'\<lparr>token := t\<rparr>) = (Inr t :: lexer_error + Token, lexer')"
    by (simp add: assign_token_def)
  then have "token (lexer'\<lparr>token := t\<rparr>) = token lexer'" by simp
  then show ?thesis by simp
qed

lemma NextToken_inv:
  assumes "lexer_inv lexer" and "NextToken lexer = (Inr t, lexer')"
  shows "lexer_inv lexer'"
proof -
  have "lexer'\<lparr>token := t\<rparr> = lexer'"
    using NextToken_token [OF assms(2)] by simp
  moreover have "lexer_inv (lexer'\<lparr>token := t\<rparr>)"
    using NextToken_ok [of lexer] assms by (simp add: step_ok_def)
  ultimately show ?thesis by simp
qed

lemma NextToken_depth:
  assumes "NextToken lexer = (Inr t, lexer')"
  shows "indent_count lexer' = indent_count lexer + depth_change t"
  using NextToken_ok [of lexer] assms by (simp add: step_ok_def)

lemma lexer_after_inv:
  assumes "lexer_inv lexer" and "lexer_after n lexer = Some lexer'"
  shows "lexer_inv lexer'"
  using assms
proof (induction n arbitrary: lexer)
  case 0
  then show ?case by simp
next
  case (Suc n)
  then show ?case
    by (auto split: prod.splits sum.splits dest: NextToken_inv)
qed

lemma Lexer_init_inv: "lexer_inv (Lexer_init inp)"
  by (simp add: lexer_inv_def Lexer_init_def)

lemma indent_balance_Cons:
  "indent_balance (Inr t # ts) = depth_change t + indent_balance ts"
  by (simp add: indent_balance_def depth_change_def)

lemma balance_is_depth_counter:
  assumes "lexer_after n lexer = Some lexer'"
  shows "indent_balance (NextTokens n lexer) = indent_count lexer' - indent_count lexer"
  using assms
proof (induction n arbitrary: lexer)
  case 0
  then show ?case by (simp add: indent_balance_def)
next
  case (Suc n)
  obtain r l1 where step: "NextToken lexer = (r, l1)" by (cases "NextToken lexer")
  with Suc.prems obtain t where r: "r = Inr t" and rest: "lexer_after n l1 = Some lexer'"
    by (cases r) auto
  from Suc.IH [OF rest] NextToken_depth [of lexer t l1] step r
  show ?case by (simp add: indent_balance_Cons)
qed

subsection \<open>The error of an odd run of spaces\<close>

text \<open>
  The error \<open>Indent(): odd spaces\<close> is thrown in \<open>Helper::Indent\<close> alone, behind the
  test for a line feed, and every caller hands it on as it is: whenever \<open>NextToken\<close>
  ends in it, a run of spaces has been read after a \<open>Newline\<close>, an \<open>Indent\<close> or a
  \<open>Dedent\<close> and the byte that follows is no line feed.
\<close>

lemma Helper_Indent_odd:
  assumes k: "\<And>l. length (input l) \<le> n \<Longrightarrow> odd_spaces_ok (k l)"
    and n: "length (dropWhile is_space (input lexer)) \<le> n"
    and tok: "token lexer = T_Newline \<or> token lexer = T_Indent \<or> token lexer = T_Dedent"
  shows "odd_spaces_ok (Helper_Indent k lexer)"
proof -
  let ?l1 = "lexer\<lparr>input := dropWhile is_space (input lexer), indent_equal := False\<rparr>"
  have r1: "odd_spaces_ok (k (?l1\<lparr>indent_equal := b\<rparr>))" for b
    using n by (intro k) simp
  have here: "odd_spaces_ok (Inl e, ?l1)" if "peek (input ?l1) \<noteq> CHR 0x0A" for e
    using that tok by (simp add: odd_spaces_ok_def peek_dropWhile_space)
  have tokens: "odd_spaces_ok (Inr t, l)" for t l
    by (simp add: odd_spaces_ok_def)
  show ?thesis
    using r1 [of True] r1 [of False] here tokens
    by (simp add: Helper_Indent_def Let_def)
qed

lemma Helper_Space_odd:
  assumes k: "\<And>l. length (input l) \<le> n \<Longrightarrow> odd_spaces_ok (k l)"
    and n: "length (dropWhile is_space (input lexer)) \<le> n"
  shows "odd_spaces_ok (Helper_Space k lexer)"
proof (cases "token lexer = T_Newline \<or> token lexer = T_Indent \<or> token lexer = T_Dedent")
  case True
  then show ?thesis
    using Helper_Indent_odd [OF k n True] by (simp add: Helper_Space_def)
next
  case False
  have "odd_spaces_ok (k (lexer\<lparr>input := dropWhile is_space (input lexer)\<rparr>))"
    using n by (intro k) simp
  with False show ?thesis by (simp add: Helper_Space_def)
qed

lemma Helper_Comment_odd:
  assumes k: "\<And>l. length (input l) \<le> length rest \<Longrightarrow> odd_spaces_ok (k l)"
  shows "odd_spaces_ok (Helper_Comment k (lexer\<lparr>input := rest\<rparr>))"
proof (cases "dropWhile (\<lambda>c. c \<noteq> CHR 0x0A) rest")
  case Nil
  with k [of "lexer\<lparr>input := []\<rparr>"] show ?thesis
    by (simp add: Helper_Comment_def del: dropWhile_eq_Nil_conv)
next
  case (Cons c rest')
  have "length (dropWhile (\<lambda>c. c \<noteq> CHR 0x0A) rest) \<le> length rest"
    by (rule length_dropWhile_le)
  with Cons k [of "lexer\<lparr>input := putback (CHR 0x0A) rest'\<rparr>"] show ?thesis
    by (simp add: Helper_Comment_def putback_def)
qed

lemma Helper_Operation_odd:
  "odd_spaces_ok (case Helper_Operation inp of (r, inp') \<Rightarrow> (r, lexer\<lparr>input := inp'\<rparr>))"
  by (auto simp: Helper_Operation_def odd_spaces_ok_def split: prod.splits sum.splits if_splits)

lemma Helper_Number_odd:
  "odd_spaces_ok (case Helper_Number inp of (r, inp') \<Rightarrow> (r, lexer\<lparr>input := inp'\<rparr>))"
  by (auto simp: Helper_Number_def odd_spaces_ok_def split: prod.splits sum.splits if_splits)

lemma String_loop_error:
  "String_loop quot s inp = (Inl e, inp') \<Longrightarrow> e \<noteq> LexerError ''Indent(): odd spaces''"
  by (induction quot s inp rule: String_loop.induct) (auto simp: escape_error_def split: if_splits)

lemma Helper_String_odd:
  "odd_spaces_ok (case Helper_String inp of (r, inp') \<Rightarrow> (r, lexer\<lparr>input := inp'\<rparr>))"
  by (auto simp: Helper_String_def odd_spaces_ok_def split: prod.splits sum.splits
      dest!: String_loop_error)

lemma Helper_Char_odd:
  assumes k: "\<And>l. lexer_measure l < lexer_measure lexer \<Longrightarrow> odd_spaces_ok (k l)"
  shows "odd_spaces_ok (Helper_Char k lexer)"
proof (cases "input lexer")
  case Nil
  then show ?thesis
    by (simp add: Helper_Char_def get_def EOF_char_def Let_def odd_spaces_ok_def)
next
  case (Cons c rest)
  have short: "odd_spaces_ok (k l)" if "length (input l) \<le> length rest" for l
    using that Cons by (intro k small_input_measure) simp
  have tokens: "odd_spaces_ok (Inr t, l)" for t l
    by (simp add: odd_spaces_ok_def)
  have nl: "odd_spaces_ok (k (lexer\<lparr>input := rest\<rparr>))"
    by (rule short) simp
  have sp: "odd_spaces_ok (Helper_Space k (lexer\<lparr>input := putback (CHR '' '') rest\<rparr>))"
  proof (rule Helper_Space_odd [where n = "length rest"])
    show "odd_spaces_ok (k l)" if "length (input l) \<le> length rest" for l
      using that by (rule short)
    show "length (dropWhile is_space (input (lexer\<lparr>input := putback (CHR '' '') rest\<rparr>))) \<le> length rest"
      by (simp add: putback_def is_space_def length_dropWhile_le)
  qed
  have cm: "odd_spaces_ok (Helper_Comment k (lexer\<lparr>input := rest\<rparr>))"
    by (rule Helper_Comment_odd) (rule short)
  have op: "odd_spaces_ok (case Helper_Operation (putback c rest) of (r, inp) \<Rightarrow> (r, lexer\<lparr>input := inp\<rparr>))"
    by (rule Helper_Operation_odd)
  have ident: "odd_spaces_ok (case Helper_Id l of (t, lexer') \<Rightarrow> (Inr t, lexer'))" for l
    by (simp add: odd_spaces_ok_def split: prod.splits)
  show ?thesis
    using Cons nl sp cm op ident tokens
    by (simp add: Helper_Char_def get_def Let_def)
qed

lemma assign_token_odd: "odd_spaces_ok r \<Longrightarrow> odd_spaces_ok (assign_token r)"
  by (auto simp: odd_spaces_ok_def assign_token_def split: prod.splits sum.splits)

lemma NextToken_odd: "odd_spaces_ok (NextToken lexer)"
proof (induction lexer rule: measure_induct_rule [of lexer_measure])
  case (less lexer)
  have tokens: "odd_spaces_ok (Inr t, l)" for t l
    by (simp add: odd_spaces_ok_def)
  have ident: "odd_spaces_ok (assign_token (case Helper_Id lexer of (t, lexer') \<Rightarrow> (Inr t, lexer')))"
    by (intro assign_token_odd) (simp add: odd_spaces_ok_def split: prod.splits)
  have num: "odd_spaces_ok (assign_token (case Helper_Number (input lexer) of (r, inp) \<Rightarrow> (r, lexer\<lparr>input := inp\<rparr>)))"
    by (intro assign_token_odd Helper_Number_odd)
  have str: "odd_spaces_ok (assign_token (case Helper_String (input lexer) of (r, inp) \<Rightarrow> (r, lexer\<lparr>input := inp\<rparr>)))"
    by (intro assign_token_odd Helper_String_odd)
  have chr: "odd_spaces_ok (assign_token (Helper_Char NextToken lexer))"
    by (intro assign_token_odd Helper_Char_odd less.IH)
  show ?case
    using tokens ident num str chr by (subst NextToken.simps) simp
qed

subsection \<open>The line behind an Indent or a Dedent\<close>

text \<open>
  \<open>NextToken\<close> returns an \<open>Indent\<close> or a \<open>Dedent\<close> in three places: in
  \<open>Helper::Indent\<close>, behind the test for a line feed and with the spaces put back; in
  \<open>Helper::Id\<close>, in front of an identifier; and at the end of the input. So the current
  token is an \<open>Indent\<close> or a \<open>Dedent\<close> only in front of a line that has content or
  that ends the input, never in front of a line of spaces and a line feed.
\<close>

lemma line_follows_other: "t \<noteq> T_Indent \<Longrightarrow> t \<noteq> T_Dedent \<Longrightarrow> line_follows (Inr t, l)"
  by (simp add: line_follows_def)

lemma line_follows_error: "line_follows (Inl e, l)"
  by (simp add: line_follows_def)

lemma Helper_Indent_line:
  assumes k: "\<And>l. length (input l) \<le> n \<Longrightarrow> line_follows (k l)"
    and n: "length (dropWhile is_space (input lexer)) \<le> n"
  shows "line_follows (Helper_Indent k lexer)"
proof -
  let ?l1 = "lexer\<lparr>input := dropWhile is_space (input lexer), indent_equal := False\<rparr>"
  have r1: "line_follows (k (?l1\<lparr>indent_equal := b\<rparr>))" for b
    using n by (intro k) simp
  have here: "line_follows (Inr t, l)" if "peek (dropWhile is_space (input l)) \<noteq> CHR 0x0A" for t l
    using that by (simp add: line_follows_def)
  show ?thesis
    using r1 [of True] r1 [of False]
    by (simp add: Helper_Indent_def Let_def spaces_putback here line_follows_error)
qed

lemma Helper_Space_line:
  assumes k: "\<And>l. length (input l) \<le> n \<Longrightarrow> line_follows (k l)"
    and n: "length (dropWhile is_space (input lexer)) \<le> n"
  shows "line_follows (Helper_Space k lexer)"
proof -
  have "line_follows (k (lexer\<lparr>input := dropWhile is_space (input lexer)\<rparr>))"
    using n by (intro k) simp
  then show ?thesis
    using Helper_Indent_line [OF k n] by (simp add: Helper_Space_def)
qed

lemma Helper_Comment_line:
  assumes k: "\<And>l. length (input l) \<le> length rest \<Longrightarrow> line_follows (k l)"
  shows "line_follows (Helper_Comment k (lexer\<lparr>input := rest\<rparr>))"
proof (cases "dropWhile (\<lambda>c. c \<noteq> CHR 0x0A) rest")
  case Nil
  with k [of "lexer\<lparr>input := []\<rparr>"] show ?thesis
    by (simp add: Helper_Comment_def del: dropWhile_eq_Nil_conv)
next
  case (Cons c rest')
  have "length (dropWhile (\<lambda>c. c \<noteq> CHR 0x0A) rest) \<le> length rest"
    by (rule length_dropWhile_le)
  with Cons k [of "lexer\<lparr>input := putback (CHR 0x0A) rest'\<rparr>"] show ?thesis
    by (simp add: Helper_Comment_def putback_def)
qed

lemma Helper_Id_line:
  assumes "peek (input lexer) \<noteq> CHR '' ''" and "peek (input lexer) \<noteq> CHR 0x0A"
  shows "line_follows (case Helper_Id lexer of (t, lexer') \<Rightarrow> (Inr t, lexer'))"
proof -
  have "dropWhile is_space (input lexer) = input lexer"
    using assms(1) by (cases "input lexer") (simp_all add: is_space_def peek_def)
  with assms(2) show ?thesis
    by (simp add: Helper_Id_def Id_scan_def line_follows_def keyword_or_id_def)
qed

lemma Helper_Operation_line:
  "line_follows (case Helper_Operation inp of (r, inp') \<Rightarrow> (r, lexer\<lparr>input := inp'\<rparr>))"
  by (auto simp: Helper_Operation_def line_follows_def split: prod.splits sum.splits if_splits)

lemma Helper_Number_line:
  "line_follows (case Helper_Number inp of (r, inp') \<Rightarrow> (r, lexer\<lparr>input := inp'\<rparr>))"
  by (auto simp: Helper_Number_def line_follows_def split: prod.splits sum.splits if_splits)

lemma Helper_String_line:
  "line_follows (case Helper_String inp of (r, inp') \<Rightarrow> (r, lexer\<lparr>input := inp'\<rparr>))"
  by (auto simp: Helper_String_def line_follows_def split: prod.splits sum.splits
      dest!: String_loop_token)

lemma Helper_Char_line:
  assumes k: "\<And>l. lexer_measure l < lexer_measure lexer \<Longrightarrow> line_follows (k l)"
  shows "line_follows (Helper_Char k lexer)"
proof (cases "input lexer")
  case Nil
  then show ?thesis
    by (simp add: Helper_Char_def get_def EOF_char_def Let_def line_follows_def)
next
  case (Cons c rest)
  have short: "line_follows (k l)" if "length (input l) \<le> length rest" for l
    using that Cons by (intro k small_input_measure) simp
  have nl: "line_follows (k (lexer\<lparr>input := rest\<rparr>))"
    by (rule short) simp
  have sp: "line_follows (Helper_Space k (lexer\<lparr>input := putback (CHR '' '') rest\<rparr>))"
  proof (rule Helper_Space_line [where n = "length rest"])
    show "line_follows (k l)" if "length (input l) \<le> length rest" for l
      using that by (rule short)
    show "length (dropWhile is_space (input (lexer\<lparr>input := putback (CHR '' '') rest\<rparr>))) \<le> length rest"
      by (simp add: putback_def is_space_def length_dropWhile_le)
  qed
  have cm: "line_follows (Helper_Comment k (lexer\<lparr>input := rest\<rparr>))"
    by (rule Helper_Comment_line) (rule short)
  have op: "line_follows (case Helper_Operation (putback c rest) of (r, inp) \<Rightarrow> (r, lexer\<lparr>input := inp\<rparr>))"
    by (rule Helper_Operation_line)
  have ident: "line_follows (case Helper_Id (lexer\<lparr>input := putback (CHR ''_'') rest\<rparr>) of (t, lexer') \<Rightarrow> (Inr t, lexer'))"
    by (rule Helper_Id_line) (simp_all add: putback_def peek_def)
  show ?thesis
    using Cons nl sp cm op ident line_follows_other
    by (simp add: Helper_Char_def get_def Let_def)
qed

lemma assign_token_line: "line_follows r \<Longrightarrow> line_follows (assign_token r)"
  by (auto simp: line_follows_def assign_token_def split: prod.splits sum.splits)

lemma NextToken_line: "line_follows (NextToken lexer)"
proof (induction lexer rule: measure_induct_rule [of lexer_measure])
  case (less lexer)
  have at_end: "line_follows (Inr t, lexer\<lparr>token := t, indent_count := d\<rparr>)"
    if "peek (input lexer) = EOF_char" for t d
  proof -
    have "dropWhile is_space (input lexer) = input lexer"
      using that by (cases "input lexer") (simp_all add: is_space_def peek_def EOF_char_def)
    with that show ?thesis by (simp add: line_follows_def EOF_char_def)
  qed
  have ident: "line_follows (assign_token (case Helper_Id lexer of (t, lexer') \<Rightarrow> (Inr t, lexer')))"
    if "isalpha (peek (input lexer))"
  proof -
    from that have "peek (input lexer) \<noteq> CHR '' ''" "peek (input lexer) \<noteq> CHR 0x0A"
      by (auto simp: isalpha_def)
    then show ?thesis by (intro assign_token_line Helper_Id_line)
  qed
  have num: "line_follows (assign_token (case Helper_Number (input lexer) of (r, inp) \<Rightarrow> (r, lexer\<lparr>input := inp\<rparr>)))"
    by (intro assign_token_line Helper_Number_line)
  have str: "line_follows (assign_token (case Helper_String (input lexer) of (r, inp) \<Rightarrow> (r, lexer\<lparr>input := inp\<rparr>)))"
    by (intro assign_token_line Helper_String_line)
  have chr: "line_follows (assign_token (Helper_Char NextToken lexer))"
    by (intro assign_token_line Helper_Char_line less.IH)
  show ?case
    using at_end [of T_Dedent "indent_count lexer - 1"] line_follows_other ident num str chr
    by (subst NextToken.simps) simp
qed

lemma no_blank_line_after_Indent_or_Dedent:
  assumes "NextToken lexer = (Inr t, lexer')" and "t = T_Indent \<or> t = T_Dedent"
  shows "peek (dropWhile is_space (input lexer')) \<noteq> CHR 0x0A"
  using NextToken_line [of lexer] assms by (simp add: line_follows_def)

subsection \<open>The end of the input\<close>

lemma NextToken_at_end:
  assumes "peek (input lexer) = EOF_char"
  shows "NextToken lexer =
     (if indent_count lexer \<noteq> 0
      then (Inr T_Dedent, lexer\<lparr>token := T_Dedent, indent_count := indent_count lexer - 1\<rparr>)
      else if token lexer \<noteq> T_Eof \<and> token lexer \<noteq> T_Dedent \<and> token lexer \<noteq> T_Newline
      then (Inr T_Newline, lexer\<lparr>token := T_Newline\<rparr>)
      else (Inr T_Eof, lexer\<lparr>token := T_Eof\<rparr>))"
  using assms by (subst NextToken.simps) simp

lemma take_Cons_replicate:
  assumes "k \<le> Suc m"
  shows "take k (x # replicate m x) = replicate k x"
proof -
  have "take k (replicate (Suc m) x) = replicate (min k (Suc m)) x"
    by (rule take_replicate)
  with assms show ?thesis by (simp add: min_def)
qed

lemma Eof_repeats:
  assumes "peek (input lexer) = EOF_char" and "indent_count lexer = 0"
    and "token lexer = T_Eof \<or> token lexer = T_Dedent \<or> token lexer = T_Newline"
  shows "NextTokens m lexer = replicate m (Inr T_Eof)"
  using assms
proof (induction m arbitrary: lexer)
  case 0
  show ?case by simp
next
  case (Suc m)
  have step: "NextToken lexer = (Inr T_Eof, lexer\<lparr>token := T_Eof\<rparr>)"
    using Suc.prems by (auto simp: NextToken_at_end)
  have "NextTokens m (lexer\<lparr>token := T_Eof\<rparr>) = replicate m (Inr T_Eof)"
    using Suc.prems by (intro Suc.IH) simp_all
  with step show ?case by simp
qed

lemma Dedents_then_Eof:
  assumes "peek (input lexer) = EOF_char" and "indent_count lexer = int d"
    and "d = 0 \<longrightarrow> token lexer = T_Eof \<or> token lexer = T_Dedent \<or> token lexer = T_Newline"
  shows "NextTokens m lexer = take m (replicate d (Inr T_Dedent) @ replicate m (Inr T_Eof))"
  using assms
proof (induction d arbitrary: lexer m)
  case 0
  then show ?case by (simp add: Eof_repeats)
next
  case (Suc d)
  show ?case
  proof (cases m)
    case 0
    then show ?thesis by simp
  next
    case (Suc m')
    have step: "NextToken lexer =
        (Inr T_Dedent, lexer\<lparr>token := T_Dedent, indent_count := indent_count lexer - 1\<rparr>)"
      using Suc.prems by (simp add: NextToken_at_end)
    have "NextTokens m' (lexer\<lparr>token := T_Dedent, indent_count := indent_count lexer - 1\<rparr>) =
        take m' (replicate d (Inr T_Dedent) @ replicate m' (Inr T_Eof))"
      using Suc.prems by (intro Suc.IH) simp_all
    moreover have "take m' (replicate d (Inr T_Dedent) @ replicate m' (Inr T_Eof)) =
        take m' (replicate d (Inr T_Dedent) @ replicate (Suc m') (Inr T_Eof) :: (lexer_error + Token) list)"
      by (simp add: take_Cons_replicate)
    ultimately show ?thesis
      using step Suc by simp
  qed
qed

lemma Dedents_Newline_Eof_from:
  assumes "peek (input lexer) = EOF_char" and "0 \<le> indent_count lexer"
  shows "NextTokens m lexer =
           take m (replicate (nat (indent_count lexer)) (Inr T_Dedent) @
                   (if indent_count lexer = 0 \<and> token lexer \<noteq> T_Eof \<and> token lexer \<noteq> T_Dedent \<and>
                       token lexer \<noteq> T_Newline
                    then [Inr T_Newline] else []) @
                   replicate m (Inr T_Eof))"
proof (cases "indent_count lexer = 0 \<and> token lexer \<noteq> T_Eof \<and> token lexer \<noteq> T_Dedent \<and> token lexer \<noteq> T_Newline")
  case False
  then have "NextTokens m lexer =
      take m (replicate (nat (indent_count lexer)) (Inr T_Dedent) @ replicate m (Inr T_Eof))"
    using assms by (intro Dedents_then_Eof) auto
  with False show ?thesis by auto
next
  case True
  show ?thesis
  proof (cases m)
    case 0
    then show ?thesis by simp
  next
    case (Suc m')
    have step: "NextToken lexer = (Inr T_Newline, lexer\<lparr>token := T_Newline\<rparr>)"
      using assms True by (simp add: NextToken_at_end)
    have "NextTokens m' (lexer\<lparr>token := T_Newline\<rparr>) = replicate m' (Inr T_Eof)"
      using assms True by (intro Eof_repeats) simp_all
    with step Suc True show ?thesis by (simp add: take_Cons_replicate)
  qed
qed

text \<open>
  C5, as stated: after the first \<open>Eof\<close> every further call of \<open>NextToken\<close> returns
  \<open>Eof\<close> and no other token is ever produced. \<open>Helper::Char\<close> returns \<open>Eof\<close> for
  every byte it does not know, wherever that byte stands: in \<open>a@b\<close> the first \<open>Eof\<close>
  is the token of \<open>@\<close>, and the identifier \<open>b\<close> and a \<open>Newline\<close> follow it.
\<close>

theorem Eof_before_end_of_input:
  "Lexer_tokens 5 ''a@b'' =
     [Inr (T_Id ''a''), Inr T_Eof, Inr (T_Id ''b''), Inr T_Newline, Inr T_Eof]"
  by code_simp

text \<open>
  C5, amended: the \<open>Eof\<close> after which nothing else comes is the one returned at the end
  of the input. For every input and after any number of tokens read from it: once the input
  is at its end, the depth counter is not negative and the calls of \<open>NextToken\<close> return
  one \<open>Dedent\<close> for each level of the depth counter, then one \<open>Newline\<close> if the
  counter was zero already and the previous token is none of \<open>Eof\<close>, \<open>Dedent\<close> and
  \<open>Newline\<close>, and then \<open>Eof\<close> at every further call: the results of the first
  \<open>m\<close> calls are the first \<open>m\<close> elements of that sequence, for every \<open>m\<close>.
\<close>

theorem end_of_input_tokens:
  assumes "lexer_after n (Lexer_init inp) = Some lexer" and "peek (input lexer) = EOF_char"
  shows "0 \<le> indent_count lexer \<and>
         NextTokens m lexer =
           take m (replicate (nat (indent_count lexer)) (Inr T_Dedent) @
                   (if indent_count lexer = 0 \<and> token lexer \<noteq> T_Eof \<and> token lexer \<noteq> T_Dedent \<and>
                       token lexer \<noteq> T_Newline
                    then [Inr T_Newline] else []) @
                   replicate m (Inr T_Eof))"
proof -
  have "lexer_inv lexer"
    using Lexer_init_inv assms(1) by (rule lexer_after_inv)
  then have nonneg: "0 \<le> indent_count lexer" by (simp add: lexer_inv_def)
  with assms(2) show ?thesis
    by (simp add: Dedents_Newline_Eof_from)
qed

theorem end_of_input_tokens_witness:
  "NextTokens 3 \<lparr>input = [], token = T_Id ''b'', indent_count = 1, indent_equal = False\<rparr> =
     [Inr T_Dedent, Inr T_Eof, Inr T_Eof]
   \<and> NextTokens 3 \<lparr>input = [], token = T_Id ''x'', indent_count = 0, indent_equal = False\<rparr> =
     [Inr T_Newline, Inr T_Eof, Inr T_Eof]"
proof -
  have a: "lexer_after 5 (Lexer_init (''a:'' @ [CHR 0x0A] @ ''  b'')) =
      Some \<lparr>input = [], token = T_Id ''b'', indent_count = 1, indent_equal = False\<rparr>"
    by code_simp
  have b: "lexer_after 1 (Lexer_init ''x'') =
      Some \<lparr>input = [], token = T_Id ''x'', indent_count = 0, indent_equal = False\<rparr>"
    by code_simp
  have e: "peek [] = EOF_char" by (simp add: peek_def)
  show ?thesis
    using end_of_input_tokens [OF a, of 3] end_of_input_tokens [OF b, of 3] e
    by (simp add: eval_nat_numeral del: NextTokens.simps)
qed

subsection \<open>Blank lines\<close>

text \<open>
  C9, as stated: a line of spaces and a line feed is consumed without a change of the depth
  counter and without an \<open>Indent\<close>, \<open>Dedent\<close> or \<open>Newline\<close>, and the odd-count error
  is raised only for lines that have content after their leading spaces. The error is
  raised as well for an odd run of spaces that ends the input: after the line \<open>x\<close>, a
  last line of one space and no line feed has no content, and \<open>NextToken\<close> throws
  \<open>Indent(): odd spaces\<close>. And the call that consumes a line of spaces can return a
  \<open>Dedent\<close> and lower the depth counter: \<open>Helper::Indent\<close> clears the equal-depth
  flag before it looks at the line, so that after the indented line \<open>1\<close>, which leaves
  the flag set, the line \<open>y\<close> gets its \<open>Dedent\<close> from \<open>Helper::Id\<close> at once when a
  line of one space stands before it, and only at the end of the input when none does.
\<close>

theorem blank_line_counterexample:
  "Lexer_tokens 3 (''x'' @ [CHR 0x0A] @ '' '') =
     [Inr (T_Id ''x''), Inr T_Newline, Inl (LexerError ''Indent(): odd spaces'')]
   \<and> Lexer_tokens 8 (''a:'' @ [CHR 0x0A] @ ''  1'' @ [CHR 0x0A] @ '' '' @ [CHR 0x0A] @ ''y'') =
     [Inr (T_Id ''a''), Inr (T_Char CHR '':''), Inr T_Newline, Inr T_Indent, Inr (T_Number 1),
      Inr T_Newline, Inr T_Dedent, Inr (T_Id ''y'')]
   \<and> Lexer_tokens 8 (''a:'' @ [CHR 0x0A] @ ''  1'' @ [CHR 0x0A] @ ''y'') =
     [Inr (T_Id ''a''), Inr (T_Char CHR '':''), Inr T_Newline, Inr T_Indent, Inr (T_Number 1),
      Inr T_Newline, Inr (T_Id ''y''), Inr T_Dedent]"
  by code_simp

lemma space_not_special:
  "CHR '' '' \<noteq> EOF_char" "\<not> isalpha (CHR '' '')" "\<not> isdigit (CHR '' '')"
  "CHR 0x0A \<noteq> EOF_char" "\<not> isalpha (CHR 0x0A)" "\<not> isdigit (CHR 0x0A)"
  by (simp_all add: EOF_char_def isalpha_def isdigit_def)

lemma takeWhile_spaces:
  "takeWhile is_space (replicate n (CHR '' '') @ CHR 0x0A # rest) = replicate n (CHR '' '')"
  "dropWhile is_space (replicate n (CHR '' '') @ CHR 0x0A # rest) = CHR 0x0A # rest"
  by (induction n) (simp_all add: is_space_def)

lemma NextToken_line_feed_after_Newline:
  assumes "token lexer = T_Newline"
  shows "NextToken (lexer\<lparr>input := CHR 0x0A # rest\<rparr>) = NextToken (lexer\<lparr>input := rest\<rparr>)"
  using assms
  by (subst NextToken.simps)
    (simp add: peek_def space_not_special Helper_Char_def get_def assign_token_NextToken)

lemma NextToken_blank_line:
  assumes "token lexer = T_Newline" and "0 < n"
  shows "NextToken (lexer\<lparr>input := replicate n (CHR '' '') @ CHR 0x0A # rest\<rparr>) =
         NextToken (lexer\<lparr>input := rest, indent_equal := False\<rparr>)"
proof -
  obtain k where n: "n = Suc k" using assms(2) by (cases n) auto
  have "NextToken (lexer\<lparr>input := replicate n (CHR '' '') @ CHR 0x0A # rest\<rparr>) =
        assign_token (Helper_Indent NextToken (lexer\<lparr>input := replicate n (CHR '' '') @ CHR 0x0A # rest\<rparr>))"
    using assms(1) n
    by (subst NextToken.simps)
      (simp add: peek_def space_not_special Helper_Char_def get_def putback_def Helper_Space_def)
  also have "\<dots> = assign_token (NextToken (lexer\<lparr>input := CHR 0x0A # rest, indent_equal := False\<rparr>))"
    by (simp add: Helper_Indent_def Let_def takeWhile_spaces peek_def)
  also have "\<dots> = NextToken (lexer\<lparr>input := CHR 0x0A # rest, indent_equal := False\<rparr>)"
    by (rule assign_token_NextToken)
  also have "\<dots> = NextToken (lexer\<lparr>indent_equal := False, input := CHR 0x0A # rest\<rparr>)"
    by (rule arg_cong [where f = NextToken]) (rule Lexer.equality, simp_all)
  also have "\<dots> = NextToken (lexer\<lparr>indent_equal := False, input := rest\<rparr>)"
    using NextToken_line_feed_after_Newline [of "lexer\<lparr>indent_equal := False\<rparr>" rest] assms(1)
    by simp
  also have "\<dots> = NextToken (lexer\<lparr>input := rest, indent_equal := False\<rparr>)"
    by (rule arg_cong [where f = NextToken]) (rule Lexer.equality, simp_all)
  finally show ?thesis .
qed

lemma NextToken_line_feed_at_start:
  assumes "token lexer = T_Eof"
  shows "NextToken (lexer\<lparr>input := CHR 0x0A # rest\<rparr>) = NextToken (lexer\<lparr>input := rest\<rparr>)"
  using assms
  by (subst NextToken.simps)
    (simp add: peek_def space_not_special Helper_Char_def get_def assign_token_NextToken)

lemma NextToken_blank_first_line:
  assumes "token lexer = T_Eof" and "0 < n"
  shows "NextToken (lexer\<lparr>input := replicate n (CHR '' '') @ CHR 0x0A # rest\<rparr>) =
         NextToken (lexer\<lparr>input := rest\<rparr>)"
proof -
  obtain k where n: "n = Suc k" using assms(2) by (cases n) auto
  have "NextToken (lexer\<lparr>input := replicate n (CHR '' '') @ CHR 0x0A # rest\<rparr>) =
        assign_token (NextToken (lexer\<lparr>input := CHR 0x0A # rest\<rparr>))"
    using assms(1) n takeWhile_spaces(2) [of n rest]
    by (subst NextToken.simps)
      (simp add: peek_def space_not_special Helper_Char_def get_def putback_def Helper_Space_def)
  also have "\<dots> = NextToken (lexer\<lparr>input := CHR 0x0A # rest\<rparr>)"
    by (rule assign_token_NextToken)
  also have "\<dots> = NextToken (lexer\<lparr>input := rest\<rparr>)"
    using assms(1) by (rule NextToken_line_feed_at_start)
  finally show ?thesis .
qed

lemma NextToken_blank_line_any:
  assumes "token lexer = T_Newline"
  shows "NextToken (lexer\<lparr>input := replicate n (CHR '' '') @ CHR 0x0A # rest\<rparr>) =
         NextToken (lexer\<lparr>input := rest, indent_equal := (if n = 0 then indent_equal lexer else False)\<rparr>)"
proof (cases "n = 0")
  case True
  then show ?thesis
    using NextToken_line_feed_after_Newline [OF assms, of rest] by simp
next
  case False
  then show ?thesis
    using NextToken_blank_line [OF assms, of n rest] by simp
qed

lemma NextToken_blank_first_line_any:
  assumes "token lexer = T_Eof"
  shows "NextToken (lexer\<lparr>input := replicate n (CHR '' '') @ CHR 0x0A # rest\<rparr>) =
         NextToken (lexer\<lparr>input := rest\<rparr>)"
proof (cases "n = 0")
  case True
  then show ?thesis
    using NextToken_line_feed_at_start [OF assms, of rest] by simp
next
  case False
  then show ?thesis
    using NextToken_blank_first_line [OF assms, of n rest] by simp
qed

text \<open>
  C9, amended: a line at a line start that consists only of spaces followed by a line feed
  is consumed without the odd-indentation error, whatever the number of its spaces, and
  consuming it changes neither the depth counter nor the current token and returns no
  token; but after a \<open>Newline\<close> a line of at least one space clears the equal-depth
  flag, and the same call, which goes on with the text after the line feed, returns what
  that text gives in that state, possibly a \<open>Dedent\<close> of \<open>Helper::Id\<close> that the set
  flag would have held back. The odd-count error is raised only for lines whose leading
  spaces are followed by content or by the end of the input. A line start is where the
  current token is a \<open>Newline\<close>, or the \<open>Eof\<close> that it is at the start of the input;
  the theorem is about \<open>NextToken\<close> in every state of the lexer.
\<close>

theorem blank_line_and_odd_spaces:
  "(token lexer = T_Newline \<longrightarrow>
      NextToken (lexer\<lparr>input := replicate n (CHR '' '') @ CHR 0x0A # rest\<rparr>) =
      NextToken (lexer\<lparr>input := rest, indent_equal := (if n = 0 then indent_equal lexer else False)\<rparr>))
   \<and> (token lexer = T_Eof \<longrightarrow>
        NextToken (lexer\<lparr>input := replicate n (CHR '' '') @ CHR 0x0A # rest\<rparr>) =
        NextToken (lexer\<lparr>input := rest\<rparr>))
   \<and> (\<forall>lexer'. NextToken lexer = (Inl (LexerError ''Indent(): odd spaces''), lexer') \<longrightarrow>
        (token lexer' = T_Newline \<or> token lexer' = T_Indent \<or> token lexer' = T_Dedent) \<and>
        peek (input lexer') \<noteq> CHR '' '' \<and> peek (input lexer') \<noteq> CHR 0x0A)"
proof (intro conjI impI allI)
  assume "token lexer = T_Newline"
  then show "NextToken (lexer\<lparr>input := replicate n (CHR '' '') @ CHR 0x0A # rest\<rparr>) =
      NextToken (lexer\<lparr>input := rest, indent_equal := (if n = 0 then indent_equal lexer else False)\<rparr>)"
    by (rule NextToken_blank_line_any)
next
  assume "token lexer = T_Eof"
  then show "NextToken (lexer\<lparr>input := replicate n (CHR '' '') @ CHR 0x0A # rest\<rparr>) =
      NextToken (lexer\<lparr>input := rest\<rparr>)"
    by (rule NextToken_blank_first_line_any)
next
  fix lexer'
  assume "NextToken lexer = (Inl (LexerError ''Indent(): odd spaces''), lexer')"
  with NextToken_odd [of lexer]
  have "(token lexer' = T_Newline \<or> token lexer' = T_Indent \<or> token lexer' = T_Dedent) \<and>
        peek (input lexer') \<noteq> CHR '' '' \<and> peek (input lexer') \<noteq> CHR 0x0A"
    by (simp add: odd_spaces_ok_def)
  then show "token lexer' = T_Newline \<or> token lexer' = T_Indent \<or> token lexer' = T_Dedent"
    and "peek (input lexer') \<noteq> CHR '' ''" and "peek (input lexer') \<noteq> CHR 0x0A"
    by simp_all
qed

theorem blank_line_and_odd_spaces_witness:
  "NextToken \<lparr>input = '' '' @ [CHR 0x0A] @ ''x'', token = T_Newline, indent_count = 0, indent_equal = True\<rparr> =
     (Inr (T_Id ''x''), \<lparr>input = [], token = T_Id ''x'', indent_count = 0, indent_equal = False\<rparr>)
   \<and> NextToken \<lparr>input = ''   '' @ [CHR 0x0A] @ ''x'', token = T_Eof, indent_count = 0, indent_equal = False\<rparr> =
     (Inr (T_Id ''x''), \<lparr>input = [], token = T_Id ''x'', indent_count = 0, indent_equal = False\<rparr>)
   \<and> NextToken \<lparr>input = '' x'', token = T_Newline, indent_count = 0, indent_equal = False\<rparr> =
     (Inl (LexerError ''Indent(): odd spaces''),
      \<lparr>input = ''x'', token = T_Newline, indent_count = 0, indent_equal = False\<rparr>)
   \<and> peek ''x'' \<noteq> CHR 0x0A"
proof -
  have x: "NextToken \<lparr>input = ''x'', token = T_Newline, indent_count = 0, indent_equal = False\<rparr> =
      (Inr (T_Id ''x''), \<lparr>input = [], token = T_Id ''x'', indent_count = 0, indent_equal = False\<rparr>)"
    by code_simp
  have y: "NextToken \<lparr>input = ''x'', token = T_Eof, indent_count = 0, indent_equal = False\<rparr> =
      (Inr (T_Id ''x''), \<lparr>input = [], token = T_Id ''x'', indent_count = 0, indent_equal = False\<rparr>)"
    by code_simp
  have z: "NextToken \<lparr>input = '' x'', token = T_Newline, indent_count = 0, indent_equal = False\<rparr> =
     (Inl (LexerError ''Indent(): odd spaces''),
      \<lparr>input = ''x'', token = T_Newline, indent_count = 0, indent_equal = False\<rparr>)"
    by code_simp
  show ?thesis
    using blank_line_and_odd_spaces [of "\<lparr>input = [], token = T_Newline, indent_count = 0, indent_equal = True\<rparr>"
        1 "''x''"]
      blank_line_and_odd_spaces [of "\<lparr>input = [], token = T_Eof, indent_count = 0, indent_equal = False\<rparr>"
        3 "''x''"]
      blank_line_and_odd_spaces [of "\<lparr>input = '' x'', token = T_Newline, indent_count = 0, indent_equal = False\<rparr>"
        0 "[]"]
      x y z
    by (simp add: eval_nat_numeral)
qed

text \<open>
  After a \<open>Newline\<close>, an \<open>Indent\<close> or a \<open>Dedent\<close>, an odd run of spaces that
  content or the end of the input follows does raise the error.
\<close>

lemma spaces_then_other:
  assumes "peek rest \<noteq> CHR '' ''"
  shows "takeWhile is_space (replicate n (CHR '' '') @ rest) = replicate n (CHR '' '')"
    and "dropWhile is_space (replicate n (CHR '' '') @ rest) = rest"
  using assms by (induction n) (cases rest; simp add: is_space_def peek_def)+

lemma NextToken_odd_spaces_raise:
  assumes tok: "token lexer = T_Newline \<or> token lexer = T_Indent \<or> token lexer = T_Dedent"
    and n: "odd n" and rest: "peek rest \<noteq> CHR '' ''" "peek rest \<noteq> CHR 0x0A"
  shows "NextToken (lexer\<lparr>input := replicate n (CHR '' '') @ rest\<rparr>) =
         (Inl (LexerError ''Indent(): odd spaces''), lexer\<lparr>input := rest, indent_equal := False\<rparr>)"
proof -
  obtain k where k: "n = Suc k" using n by (cases n) auto
  have "NextToken (lexer\<lparr>input := replicate n (CHR '' '') @ rest\<rparr>) =
        assign_token (Helper_Indent NextToken (lexer\<lparr>input := replicate n (CHR '' '') @ rest\<rparr>))"
    using tok k
    by (subst NextToken.simps)
      (auto simp: peek_def space_not_special Helper_Char_def get_def putback_def Helper_Space_def)
  also have "\<dots> = (Inl (LexerError ''Indent(): odd spaces''), lexer\<lparr>input := rest, indent_equal := False\<rparr>)"
    using n rest
    by (simp add: Helper_Indent_def Let_def spaces_then_other assign_token_def odd_iff_mod_2_eq_one)
  finally show ?thesis .
qed

subsection \<open>Dedent before a line that does not start with an identifier\<close>

text \<open>
  C4. The number of \<open>Indent\<close> tokens minus the number of \<open>Dedent\<close> tokens emitted so far
  should be the indentation depth of the line being scanned, whatever token begins the line.
  A line without leading spaces reaches neither \<open>Helper::Space\<close> nor \<open>Helper::Indent\<close>;
  the \<open>Dedent\<close> for it is emitted by \<open>Helper::Id\<close> alone. After the indented line \<open>b\<close>,
  the line \<open>1\<close> at depth zero is read at balance one, and its \<open>Dedent\<close> comes only at
  the end of the input; the line \<open>c\<close> in its place is read at balance zero, after a
  \<open>Dedent\<close>.
\<close>

theorem dedent_missing_before_number:
  "Lexer_tokens 10 (''a:'' @ [CHR 0x0A] @ ''  b'' @ [CHR 0x0A] @ ''1'' @ [CHR 0x0A]) =
     [Inr (T_Id ''a''), Inr (T_Char CHR '':''), Inr T_Newline, Inr T_Indent, Inr (T_Id ''b''),
      Inr T_Newline, Inr (T_Number 1), Inr T_Newline, Inr T_Dedent, Inr T_Eof]
   \<and> indent_balance (take 7 (Lexer_tokens 10 (''a:'' @ [CHR 0x0A] @ ''  b'' @ [CHR 0x0A] @ ''1'' @ [CHR 0x0A]))) = 1
   \<and> Lexer_tokens 10 (''a:'' @ [CHR 0x0A] @ ''  b'' @ [CHR 0x0A] @ ''c'' @ [CHR 0x0A]) =
     [Inr (T_Id ''a''), Inr (T_Char CHR '':''), Inr T_Newline, Inr T_Indent, Inr (T_Id ''b''),
      Inr T_Newline, Inr T_Dedent, Inr (T_Id ''c''), Inr T_Newline, Inr T_Eof]
   \<and> indent_balance (take 8 (Lexer_tokens 10 (''a:'' @ [CHR 0x0A] @ ''  b'' @ [CHR 0x0A] @ ''c'' @ [CHR 0x0A]))) = 0"
  by code_simp

end
